theory Spec2Isabelle
  imports Complex_Main "HOL-Library.Sublist"
begin

text \<open>
  The route \<open>src/pages/api/getCourses.ts\<close> of teachassist-api: it logs in to the portal,
  reads the course list from the page returned, requests the detail page of each course
  and reads the assignments and the weight table from it. The functions below follow the
  source line by line; the line numbers are those of that file. The portal and cheerio
  are parameters (\<open>env\<close>); the CORS middleware that runs before the handler is left out.
\<close>

section \<open>JavaScript strings and arrays, as far as getCourses.ts uses them\<close>

text \<open>
  A JavaScript string is modelled as a \<^typ>\<open>string\<close>: a list of code units, each below 256
  (the Latin-1 range: ASCII and the no-break space U+00A0 that an HTML page brings).
  Reading an array beyond its end gives \<open>undefined\<close> in JavaScript, and calling a method on
  \<open>undefined\<close> throws a TypeError: \<open>nth_opt\<close> is the read, \<open>None\<close> is \<open>undefined\<close>, and each
  caller turns a method call on \<open>None\<close> into \<open>Inl TypeError\<close>.
\<close>

datatype js_error = TypeError | FetchError string

fun nth_opt :: "'a list \<Rightarrow> nat \<Rightarrow> 'a option" where
  "nth_opt [] n = None"
| "nth_opt (x # xs) 0 = Some x"
| "nth_opt (x # xs) (Suc n) = nth_opt xs n"

text \<open>\<open>s.indexOf(p)\<close>: the position of the first occurrence of \<open>p\<close> in \<open>s\<close>, \<open>None\<close> for -1.\<close>

fun indexOf :: "string \<Rightarrow> string \<Rightarrow> nat option" where
  "indexOf [] p = (if p = [] then Some 0 else None)"
| "indexOf (c # cs) p =
     (if prefix p (c # cs) then Some 0 else map_option Suc (indexOf cs p))"

text \<open>\<open>s.includes(p)\<close>.\<close>

definition includes_js :: "string \<Rightarrow> string \<Rightarrow> bool" where
  "includes_js s p \<longleftrightarrow> indexOf s p \<noteq> None"

text \<open>
  \<open>s.split(sep)\<close> with a string separator: the pieces between the successive, non-overlapping
  occurrences of \<open>sep\<close>, searched from the left; the empty separator splits into code units.
\<close>

function split_js :: "string \<Rightarrow> string \<Rightarrow> string list" where
  "split_js s sep =
     (if sep = [] then map (\<lambda>c. [c]) s
      else case indexOf s sep of
             None \<Rightarrow> [s]
           | Some i \<Rightarrow> take i s # split_js (drop (i + length sep) s) sep)"
  by pat_completeness auto
termination
proof (relation "measure (\<lambda>(s, sep). length s)")
  fix s sep :: string and i :: nat
  assume "sep \<noteq> []" and "indexOf s sep = Some i"
  then have "s \<noteq> []" by (cases s) auto
  then show "((drop (i + length sep) s, sep), (s, sep)) \<in> measure (\<lambda>(s, sep). length s)"
    using \<open>sep \<noteq> []\<close> by simp
qed simp

declare split_js.simps [simp del]

text \<open>\<open>s.replace(p, r)\<close> with a string pattern replaces the first occurrence only.\<close>

definition replace_js :: "string \<Rightarrow> string \<Rightarrow> string \<Rightarrow> string" where
  "replace_js s p r =
     (case indexOf s p of None \<Rightarrow> s | Some i \<Rightarrow> take i s @ r @ drop (i + length p) s)"

text \<open>
  \<open>s.replaceAll(p, r)\<close> with a non-empty string pattern replaces every occurrence found by
  the same left-to-right search as \<open>split\<close>: the pieces are joined again with \<open>r\<close>. The
  source calls it with the one-character patterns \<open>" "\<close> and \<open>"\t"\<close> only.
\<close>

fun join_js :: "string \<Rightarrow> string list \<Rightarrow> string" where
  "join_js r [] = []"
| "join_js r [x] = x"
| "join_js r (x # y # ys) = x @ r @ join_js r (y # ys)"

definition replaceAll :: "string \<Rightarrow> string \<Rightarrow> string \<Rightarrow> string" where
  "replaceAll s p r = join_js r (split_js s p)"

text \<open>
  \<open>s.trim()\<close> strips white space and line terminators at both ends; below 256 these are
  TAB, LF, VT, FF, CR, SP and NBSP.
\<close>

definition is_ws :: "char \<Rightarrow> bool" where
  "is_ws c \<longleftrightarrow>
     c \<in> set [CHR 0x09, CHR 0x0A, CHR 0x0B, CHR 0x0C, CHR 0x0D, CHR 0x20, CHR 0xA0]"

definition trim :: "string \<Rightarrow> string" where
  "trim s = rev (dropWhile is_ws (rev (dropWhile is_ws s)))"

subsection \<open>Numbers and \<open>parseFloat\<close>\<close>

text \<open>
  A JavaScript number is \<open>NaN\<close>, an infinity (\<open>Infinity True\<close> is the negative one) or a
  finite double, kept as the rational it stands for. The zero with a minus sign is not
  told apart from zero; both are falsy and both are written \<open>0\<close> in JSON.
\<close>

datatype jsnum = NaN | Infinity bool | Num rat

text \<open>
  The Number value of a rational: the nearest binary64, ties to the even significand.
  \<open>bit_length n\<close> is the number of binary digits of \<open>n\<close>, so \<open>log2_floor a\<close> is the \<open>e\<close> with
  \<open>2^e \<le> a < 2^(e+1)\<close> for a positive \<open>a\<close>. The doubles of that binade are the multiples of
  \<open>2^(e-52)\<close>; below \<open>2^(-1022)\<close> they are the multiples of \<open>2^(-1074)\<close>, so a value of at most
  \<open>2^(-1075)\<close> becomes 0; a value that rounds to \<open>2^1024\<close> or more becomes an infinity.
\<close>

function bit_length :: "int \<Rightarrow> int" where
  "bit_length n = (if n \<le> 0 then 0 else 1 + bit_length (n div 2))"
  by pat_completeness auto
termination
  by (relation "measure nat") auto

declare bit_length.simps [simp del]

definition pow2 :: "int \<Rightarrow> rat" where
  "pow2 e = (if 0 \<le> e then 2 ^ nat e else 1 / 2 ^ nat (- e))"

definition log2_floor :: "rat \<Rightarrow> int" where
  "log2_floor a =
     (if 1 \<le> a then bit_length \<lfloor>a\<rfloor> - 1 else - bit_length (\<lceil>1 / a\<rceil> - 1))"

definition round_half_even :: "rat \<Rightarrow> int" where
  "round_half_even x =
     (let f = \<lfloor>x\<rfloor>; d = x - of_int f
      in if d < 1 / 2 then f else if 1 / 2 < d then f + 1 else if even f then f else f + 1)"

definition to_double :: "rat \<Rightarrow> jsnum" where
  "to_double v =
     (if v = 0 then Num 0
      else
        let a = \<bar>v\<bar>;
            e = max (log2_floor a) (- 1022);
            ulp = pow2 (e - 52);
            r = of_int (round_half_even (a / ulp)) * ulp
        in if pow2 1024 \<le> r then Infinity (v < 0) else Num (if v < 0 then - r else r))"

definition is_digit :: "char \<Rightarrow> bool" where
  "is_digit c \<longleftrightarrow> c \<in> set ''0123456789''"

definition digit_val :: "char \<Rightarrow> int" where
  "digit_val c = of_char c - 48"

definition digits_val :: "string \<Rightarrow> int" where
  "digits_val ds = foldl (\<lambda>n c. 10 * n + digit_val c) 0 ds"

text \<open>
  The exponent part \<open>e\<close>/\<open>E\<close>, optional sign, digits; it is read only when at least one digit
  follows, and is zero otherwise.
\<close>

definition exponent_of :: "string \<Rightarrow> int" where
  "exponent_of r =
     (case r of
        [] \<Rightarrow> 0
      | c # r1 \<Rightarrow>
          if c = CHR ''e'' \<or> c = CHR ''E'' then
            (case r1 of
               [] \<Rightarrow> 0
             | d # r2 \<Rightarrow>
                 if d = CHR ''-'' then - digits_val (takeWhile is_digit r2)
                 else if d = CHR ''+'' then digits_val (takeWhile is_digit r2)
                 else digits_val (takeWhile is_digit r1))
          else 0)"

definition pow10 :: "int \<Rightarrow> rat" where
  "pow10 e = (if 0 \<le> e then 10 ^ nat e else 1 / 10 ^ nat (- e))"

text \<open>
  The unsigned part of a \<open>StrDecimalLiteral\<close>: \<open>Infinity\<close>, or digits with an optional
  fraction and exponent, of which the longest prefix is read; \<open>None\<close> when no prefix is one.
  The value is the exact decimal.
\<close>

definition unsigned_literal :: "string \<Rightarrow> (rat option) option" where
  "unsigned_literal t =
     (if prefix ''Infinity'' t then Some None
      else
        let ip = takeWhile is_digit t;
            r1 = dropWhile is_digit t;
            fp = (case r1 of [] \<Rightarrow> [] | c # r \<Rightarrow> if c = CHR ''.'' then takeWhile is_digit r else []);
            r2 = (case r1 of [] \<Rightarrow> [] | c # r \<Rightarrow> if c = CHR ''.'' then dropWhile is_digit r else r1)
        in if ip = [] \<and> fp = [] then None
           else Some (Some ((of_int (digits_val ip) + of_int (digits_val fp) / 10 ^ length fp)
                             * pow10 (exponent_of r2))))"

text \<open>
  \<open>parseFloat(s)\<close>: leading white space is skipped, the longest prefix that is a
  \<open>StrDecimalLiteral\<close> is read and its value is rounded to a double; \<open>NaN\<close> when there is no
  such prefix.
\<close>

definition parseFloat :: "string \<Rightarrow> jsnum" where
  "parseFloat s =
     (let t = dropWhile is_ws s;
          neg = (case t of [] \<Rightarrow> False | c # _ \<Rightarrow> c = CHR ''-'');
          t' = (case t of [] \<Rightarrow> [] | c # r \<Rightarrow> if c = CHR ''-'' \<or> c = CHR ''+'' then r else t)
      in case unsigned_literal t' of
           None \<Rightarrow> NaN
         | Some None \<Rightarrow> Infinity neg
         | Some (Some v) \<Rightarrow> to_double (if neg then - v else v))"

section \<open>The overall mark\<close>

text \<open>The type \<open>number | "N/A"\<close> of a mark.\<close>

datatype mark_value = NA | Number jsnum

record overall =
  mark :: mark_value
  isFinal :: bool
  isMidterm :: bool

text \<open>
  \<open>parseOverallMark\<close>, lines 64 to 82. \<open>mark.split(k)[1].split("%")[0]\<close> throws a TypeError
  when \<open>split(k)\<close> has one piece only; \<open>split("%")\<close> always has a first piece.
\<close>

definition number_after :: "string \<Rightarrow> string \<Rightarrow> js_error + jsnum" where
  "number_after m k =
     (case nth_opt (split_js m k) 1 of
        None \<Rightarrow> Inl TypeError
      | Some t \<Rightarrow> Inr (parseFloat (hd (split_js t ''%''))))"

definition parseOverallMark :: "string \<Rightarrow> js_error + overall" where
  "parseOverallMark mark0 =
     (let m = replaceAll mark0 '' '' '''';
          result = \<lparr>mark = NA, isFinal = False, isMidterm = False\<rparr>
      in if includes_js m ''FINAL'' then
           (case number_after m ''FINALMARK:'' of
              Inl e \<Rightarrow> Inl e
            | Inr v \<Rightarrow> Inr (result\<lparr>mark := Number v, isFinal := True\<rparr>))
         else if includes_js m ''currentmark'' then
           (case number_after m ''currentmark='' of
              Inl e \<Rightarrow> Inl e
            | Inr v \<Rightarrow> Inr (result\<lparr>mark := Number v\<rparr>))
         else if includes_js m ''MIDTERM'' then
           (case number_after m ''MIDTERMMARK:'' of
              Inl e \<Rightarrow> Inl e
            | Inr v \<Rightarrow> Inr (result\<lparr>mark := Number v, isMidterm := True\<rparr>))
         else Inr result)"

section \<open>The records of getCourses.ts\<close>

text \<open>
  The interfaces \<open>Mark\<close>, \<open>Assignment\<close>, \<open>WeightTable\<close> and \<open>Course\<close>, lines 7 to 47. The six
  optional category fields of an \<open>Assignment\<close> are written by a computed key
  (\<open>assignment[item[0]] = [...]\<close>), so they are kept as one map from the category code to
  its \<open>Mark[]\<close>; an absent key is an absent field.
\<close>

record Mark =
  get :: jsnum
  total :: jsnum
  weight :: jsnum
  finished :: bool

record Assignment =
  name :: string
  feedback :: "string option"
  marks :: "string \<rightharpoonup> Mark list"

record Weights =
  W :: jsnum
  CW :: jsnum
  SA :: jsnum

type_synonym WeightTable = "string \<rightharpoonup> Weights"

record Course =
  code :: string
  name :: string
  block :: string
  room :: string
  start_time :: string
  end_time :: string
  dropped_time :: string
  overall_mark :: mark_value
  isFinal :: bool
  isMidterm :: bool
  link :: "string option"
  assignments :: "Assignment list"
  weight_table :: WeightTable

section \<open>What cheerio and the portal give\<close>

text \<open>
  The markup is read through cheerio only; of a loaded page the handler sees the results of
  its selections, which are the fields below.
  \<^item> \<open>tr_elem\<close>: a row of \<open>$(".green_border_message div table tr")\<close>, with \<open>$(elem).text()\<close>
    and \<open>$(elem).find("a").attr("href")\<close> (\<open>None\<close> for \<open>undefined\<close>).
  \<^item> \<open>row_elem\<close>: an element of \<open>$('table[width="100%"]').children().children()\<close>, with
    \<open>$(elem).text()\<close>, \<open>$(elem).find('td[rowspan="2"]').text()\<close> and, for a colour \<open>c\<close>,
    \<open>$(elem).find('td[bgcolor="c"]').text()\<close> (the empty string when no cell matches).
  \<^item> \<open>tr_cells\<close>: for a colour \<open>c\<close>, the texts of
    \<open>$('table[cellpadding="5"]').find('tr[bgcolor="c"]').children()\<close>, in document order.
\<close>

record tr_elem =
  tr_text :: string
  tr_href :: "string option"

record row_elem =
  row_text :: string
  td_rowspan2 :: string
  td_bgcolor :: "string \<Rightarrow> string"

record document =
  course_rows :: "tr_elem list"
  assignment_rows :: "row_elem list"
  tr_cells :: "string \<Rightarrow> string list"

text \<open>
  \<open>cookieFetch\<close> with the cookie jar of the call: the answer to a request may depend on
  the requests made before it, so it takes the URLs already requested and the URL; \<open>Inl\<close>
  is a rejected promise, \<open>Inr\<close> the text of the response. \<open>load\<close> is \<open>cheerio.load\<close>.
\<close>

record env =
  cookieFetch :: "string list \<Rightarrow> string \<Rightarrow> js_error + string"
  load :: "string \<Rightarrow> document"

record request =
  req_method :: string
  username :: "string option"
  password :: "string option"

datatype body = ErrorMsg string | ErrorOf js_error | Courses "Course list"

record response =
  status :: nat
  json :: body

section \<open>The course list\<close>

text \<open>\<open>x || d\<close> for \<open>x\<close> a string or \<open>undefined\<close>: both \<open>undefined\<close> and \<open>""\<close> are falsy.\<close>

definition or_default :: "string option \<Rightarrow> string \<Rightarrow> string" where
  "or_default x d = (case x of None \<Rightarrow> d | Some s \<Rightarrow> if s = [] then d else s)"

text \<open>\<open>overall.mark || "N/A"\<close>: the falsy numbers are \<open>0\<close>, \<open>-0\<close> and \<open>NaN\<close>.\<close>

definition mark_or_NA :: "mark_value \<Rightarrow> mark_value" where
  "mark_or_NA m =
     (case m of NA \<Rightarrow> NA | Number n \<Rightarrow> if n = NaN \<or> n = Num 0 then NA else Number n)"

text \<open>Lines 126 to 128: the lines of the row, trimmed, the empty ones dropped.\<close>

definition filteredCourse :: "string \<Rightarrow> string list" where
  "filteredCourse t = filter (\<lambda>item. length item > 0) (map trim (split_js t [CHR 0x0A]))"

text \<open>Lines 132 to 139: \<open>end_time\<close> and \<open>dropped_time\<close> from the fourth line.\<close>

definition end_and_dropped :: "string \<Rightarrow> js_error + string \<times> string" where
  "end_and_dropped l =
     (if includes_js l ''Dropped on'' then
        (case nth_opt (split_js l ''Dropped on'') 1 of
           None \<Rightarrow> Inl TypeError
         | Some d \<Rightarrow> Inr (trim (hd (split_js l ''Dropped'')), trim d))
      else Inr (trim l, ''''))"

text \<open>
  The body of the callback of \<open>each\<close>, lines 122 to 160, for one row: \<open>Inl\<close> when it throws
  (the \<open>catch\<close> logs and the row gives nothing), \<open>Inr None\<close> when the row is skipped,
  \<open>Inr (Some c)\<close> when \<open>c\<close> is pushed to \<open>courses\<close>.
\<close>

definition course_row :: "tr_elem \<Rightarrow> js_error + Course option" where
  "course_row elem =
     (let courseText = split_js (tr_text elem) [CHR 0x0A] in
      case nth_opt courseText 1 of
        None \<Rightarrow> Inl TypeError
      | Some line1 \<Rightarrow>
          if \<not> includes_js line1 ''Course Name'' then
            (let fc = filteredCourse (tr_text elem) in
             if length fc > 3 then
               (case parseOverallMark (or_default (nth_opt fc 4) '''') of
                  Inl e \<Rightarrow> Inl e
                | Inr ov \<Rightarrow>
                    (case end_and_dropped (fc ! 3) of
                       Inl e \<Rightarrow> Inl e
                     | Inr (end_t, dropped_t) \<Rightarrow>
                         Inr (Some
                           \<lparr>code = or_default (nth_opt (split_js (fc ! 0) '' : '') 0) ''Unknown Code'',
                            name = or_default (nth_opt (split_js (fc ! 0) '' : '') 1) ''Unknown Course'',
                            block = or_default
                              (nth_opt (split_js (replace_js (fc ! 1) ''Block: P'' '''') '' '') 0) ''N/A'',
                            room = or_default (nth_opt (split_js (fc ! 1) ''rm. '') 1) ''Unknown Room'',
                            start_time = or_default (nth_opt (split_js (fc ! 2) '' '') 0) '''',
                            end_time = end_t,
                            dropped_time = dropped_t,
                            overall_mark = mark_or_NA (mark ov),
                            isFinal = overall.isFinal ov,
                            isMidterm = overall.isMidterm ov,
                            link = tr_href elem,
                            assignments = [],
                            weight_table = Map.empty\<rparr>)))
             else Inr None)
          else Inr None)"

text \<open>The \<open>each\<close> over the rows, lines 120 to 162: the courses pushed, in row order.\<close>

fun course_list :: "tr_elem list \<Rightarrow> Course list" where
  "course_list [] = []"
| "course_list (elem # elems) =
     (case course_row elem of
        Inr (Some c) \<Rightarrow> c # course_list elems
      | _ \<Rightarrow> course_list elems)"

section \<open>The assignment table\<close>

text \<open>
  Lines 197 to 202, the body of the \<open>try\<close>: \<open>category.split(" / ")[1]\<close> and
  \<open>category.split("weight=")[1]\<close> are \<open>undefined\<close> when the separator is absent, and the
  \<open>split\<close> called on them throws; \<open>parseFloat\<close> never throws.
\<close>

definition parse_category :: "string \<Rightarrow> js_error + Mark" where
  "parse_category category =
     (case nth_opt (split_js category '' / '') 1 of
        None \<Rightarrow> Inl TypeError
      | Some t \<Rightarrow>
          (case nth_opt (split_js category ''weight='') 1 of
             None \<Rightarrow> Inl TypeError
           | Some w \<Rightarrow>
               Inr \<lparr>get = parseFloat (hd (split_js category '' / '')),
                    total = parseFloat (hd (split_js t '' = '')),
                    weight = parseFloat (hd (split_js w [CHR 0x0A])),
                    finished = (\<not> includes_js category ''finished'')\<rparr>))"

text \<open>The \<open>try\<close> with its \<open>catch\<close>, lines 196 to 205: the mark stored for a non-empty cell.\<close>

definition category_mark :: "string \<Rightarrow> Mark" where
  "category_mark category =
     (case parse_category category of
        Inr m \<Rightarrow> m
      | Inl e \<Rightarrow> \<lparr>get = Num 0, total = Num 0, weight = Num 0, finished = True\<rparr>)"

definition category_colors :: "(string \<times> string) list" where
  "category_colors =
     [(''KU'', ''ffffaa''), (''A'', ''ffd490''), (''T'', ''c0fea4''),
      (''C'', ''afafff''), (''O'', ''eeeeee''), (''F'', ''#dedede'')]"

text \<open>The callback of \<open>forEach\<close>, lines 193 to 207, for one pair \<open>item\<close>.\<close>

definition set_category :: "row_elem \<Rightarrow> Assignment \<Rightarrow> string \<times> string \<Rightarrow> Assignment" where
  "set_category elem assignment item =
     (let category = trim (replaceAll (td_bgcolor elem (snd item)) [CHR 0x09] '''')
      in if category \<noteq> [] then
           assignment\<lparr>marks := (marks assignment)(fst item \<mapsto> [category_mark category])\<rparr>
         else assignment)"

text \<open>Lines 187 to 207: the assignment built from an assignment row.\<close>

definition assignment_row :: "row_elem \<Rightarrow> Assignment" where
  "assignment_row elem =
     foldl (set_category elem)
       \<lparr>Assignment.name = replaceAll (td_rowspan2 elem) [CHR 0x09] '''',
        feedback = None, marks = Map.empty\<rparr>
       category_colors"

text \<open>
  Line 182, \<open>assignments[assignments.length - 1].feedback = ...\<close>: on the empty array the
  element read is \<open>undefined\<close> and the assignment to its property throws.
\<close>

definition set_last_feedback :: "Assignment list \<Rightarrow> string \<Rightarrow> js_error + Assignment list" where
  "set_last_feedback as fb =
     (if as = [] then Inl TypeError
      else Inr (butlast as @ [(last as)\<lparr>feedback := Some fb\<rparr>]))"

text \<open>
  The \<open>each\<close> of lines 178 to 209, from a value of \<open>counter\<close> and the assignments pushed so
  far: the counter is incremented first, an even counter is a feedback row (ignored while
  the counter is 2), an odd one an assignment row.
\<close>

fun each_row :: "nat \<Rightarrow> Assignment list \<Rightarrow> row_elem list \<Rightarrow> js_error + Assignment list" where
  "each_row counter as [] = Inr as"
| "each_row counter as (elem # elems) =
     (let counter' = counter + 1 in
      if counter' mod 2 = 0 then
        (if counter' > 2 then
           (case set_last_feedback as (trim (row_text elem)) of
              Inl e \<Rightarrow> Inl e
            | Inr as' \<Rightarrow> each_row counter' as' elems)
         else each_row counter' as elems)
      else each_row counter' (as @ [assignment_row elem]) elems)"

text \<open>Lines 176 to 209: \<open>assignments\<close> starts empty and \<open>counter\<close> at 1.\<close>

definition parse_assignments :: "row_elem list \<Rightarrow> js_error + Assignment list" where
  "parse_assignments elems = each_row 1 [] elems"

section \<open>The weight table\<close>

definition weight_colors :: "(string \<times> string) list" where
  "weight_colors =
     [(''KU'', ''ffffaa''), (''A'', ''ffd490''), (''T'', ''c0fea4''),
      (''C'', ''afafff''), (''O'', ''eeeeee''), (''F'', ''cccccc'')]"

text \<open>
  Lines 221 to 230, the body of the \<open>try\<close>, from the collected \<open>weights\<close>:
  \<open>weights[0]?.includes("Final")\<close> is falsy on the empty array; \<open>weights[k].replace\<close> throws
  when \<open>weights[k]\<close> is \<open>undefined\<close>, and then nothing is stored.
\<close>

definition weight_entry :: "string list \<Rightarrow> js_error + Weights" where
  "weight_entry weights0 =
     (let final = (case nth_opt weights0 0 of None \<Rightarrow> False | Some w0 \<Rightarrow> includes_js w0 ''Final'');
          index = (if final then 0 else 1);
          weights = (if final then weights0[0 := ''0%''] else weights0)
      in case nth_opt weights index of
           None \<Rightarrow> Inl TypeError
         | Some a \<Rightarrow>
             (case nth_opt weights (index + 1) of
                None \<Rightarrow> Inl TypeError
              | Some b \<Rightarrow>
                  (case nth_opt weights (index + 2) of
                     None \<Rightarrow> Inl TypeError
                   | Some c \<Rightarrow>
                       Inr \<lparr>W = parseFloat (replace_js a ''%'' ''''),
                            CW = parseFloat (replace_js b ''%'' ''''),
                            SA = parseFloat (replace_js c ''%'' '''')\<rparr>)))"

text \<open>The callback of \<open>forEach\<close>, lines 215 to 234, for one pair \<open>item\<close>.\<close>

definition set_weight :: "document \<Rightarrow> WeightTable \<Rightarrow> string \<times> string \<Rightarrow> WeightTable" where
  "set_weight doc wt item =
     (let weights = map trim (tr_cells doc (''#'' @ snd item))
      in case weight_entry weights of
           Inl e \<Rightarrow> wt
         | Inr w \<Rightarrow> wt(fst item \<mapsto> w))"

definition parse_weight_table :: "document \<Rightarrow> WeightTable" where
  "parse_weight_table doc = foldl (set_weight doc) Map.empty weight_colors"

section \<open>The handler\<close>

text \<open>
  Line 167: \<open>"https://ta.yrdsb.ca/live/students/" + (courses[i].link as string)\<close>. The cast
  changes nothing at run time: an \<open>undefined\<close> link is concatenated as \<open>"undefined"\<close>.
\<close>

definition link_string :: "string option \<Rightarrow> string" where
  "link_string l = (case l of None \<Rightarrow> ''undefined'' | Some s \<Rightarrow> s)"

definition course_url :: "Course \<Rightarrow> string" where
  "course_url c = ''https://ta.yrdsb.ca/live/students/'' @ link_string (link c)"

text \<open>
  The loop of lines 164 to 238 over \<open>courses\<close>, with the URLs requested so far: it returns
  the URLs requested in the end and either the error that left the loop or the courses with
  \<open>assignments\<close> and \<open>weight_table\<close> replaced (lines 236 and 237 copy both as they are).
\<close>

fun detail_loop :: "env \<Rightarrow> string list \<Rightarrow> Course list \<Rightarrow> string list \<times> (js_error + Course list)" where
  "detail_loop e requested [] = (requested, Inr [])"
| "detail_loop e requested (c # cs) =
     (case cookieFetch e requested (course_url c) of
        Inl err \<Rightarrow> (requested @ [course_url c], Inl err)
      | Inr courseText \<Rightarrow>
          (let doc = load e courseText in
           case parse_assignments (assignment_rows doc) of
             Inl err \<Rightarrow> (requested @ [course_url c], Inl err)
           | Inr as \<Rightarrow>
               (let c' = c\<lparr>assignments := as, weight_table := parse_weight_table doc\<rparr>;
                    (requested', r) = detail_loop e (requested @ [course_url c]) cs
                in (requested', case r of Inl err \<Rightarrow> Inl err | Inr cs' \<Rightarrow> Inr (c' # cs')))))"

text \<open>
  The repository holds a second copy of the handler, in a file whose name is not known.
  Its loop (lines 173 to 258 of that file) begins with \<open>if (!course.link) continue;\<close>:
  a course whose link is \<open>undefined\<close> or empty is passed over. The parse of the detail
  page differs in that copy and is the parameter \<open>parse\<close> here.
\<close>

fun detail_loop_guarded ::
  "(document \<Rightarrow> js_error + Assignment list \<times> WeightTable) \<Rightarrow> env \<Rightarrow> string list \<Rightarrow>
     Course list \<Rightarrow> string list \<times> (js_error + Course list)" where
  "detail_loop_guarded parse e requested [] = (requested, Inr [])"
| "detail_loop_guarded parse e requested (c # cs) =
     (if or_default (link c) '''' = [] then
        (let (requested', r) = detail_loop_guarded parse e requested cs
         in (requested', case r of Inl err \<Rightarrow> Inl err | Inr cs' \<Rightarrow> Inr (c # cs')))
      else
        (let url = ''https://ta.yrdsb.ca/live/students/'' @ or_default (link c) '''' in
         case cookieFetch e requested url of
           Inl err \<Rightarrow> (requested @ [url], Inl err)
         | Inr courseText \<Rightarrow>
             (case parse (load e courseText) of
                Inl err \<Rightarrow> (requested @ [url], Inl err)
              | Inr (as, wt) \<Rightarrow>
                  (let c' = c\<lparr>assignments := as, weight_table := wt\<rparr>;
                       (requested', r) = detail_loop_guarded parse e (requested @ [url]) cs
                   in (requested', case r of Inl err \<Rightarrow> Inl err | Inr cs' \<Rightarrow> Inr (c' # cs'))))))"

definition login_url :: "string \<Rightarrow> string \<Rightarrow> string" where
  "login_url u p =
     ''https://ta.yrdsb.ca/live/index.php?username='' @ u @ ''&password='' @ p
       @ ''&submit=Login&subject_id=0''"

text \<open>
  Lines 118 to 246, once the login page is known to be none of the three failures: the
  course list, then the detail loop; an error that reaches the outer \<open>catch\<close> is answered
  with status 500.
\<close>

definition courses_response :: "env \<Rightarrow> string list \<Rightarrow> string \<Rightarrow> response option \<times> string list" where
  "courses_response e requested textData =
     (case detail_loop e requested (course_list (course_rows (load e textData))) of
        (requested', Inl err) \<Rightarrow> (Some \<lparr>status = 500, json = ErrorOf err\<rparr>, requested')
      | (requested', Inr cs) \<Rightarrow> (Some \<lparr>status = 200, json = Courses cs\<rparr>, requested'))"

text \<open>
  \<open>handler\<close>, lines 84 to 248, after the CORS middleware: the response sent (\<open>None\<close> when
  the method is not POST, where the function ends without one) and the URLs requested.
  \<open>!username\<close> holds for \<open>undefined\<close> and for the empty string, so \<open>u\<close> and \<open>p\<close> below are
  the two strings when both tests pass.
\<close>

definition handler :: "env \<Rightarrow> request \<Rightarrow> response option \<times> string list" where
  "handler e req =
     (let u = or_default (username req) ''''; p = or_default (password req) '''' in
      if u = [] \<or> p = [] then
        (Some \<lparr>status = 400, json = ErrorMsg ''Invalid username or password''\<rparr>, [])
      else if req_method req = ''POST'' then
        (let url = login_url u p in
         case cookieFetch e [] url of
           Inl err \<Rightarrow> (Some \<lparr>status = 500, json = ErrorOf err\<rparr>, [url])
         | Inr textData \<Rightarrow>
             if includes_js textData ''Invalid Login'' then
               (Some \<lparr>status = 401, json = ErrorMsg ''Invalid Login''\<rparr>, [url])
             else if includes_js textData ''Access Denied'' then
               (Some \<lparr>status = 403, json = ErrorMsg ''Access Denied''\<rparr>, [url])
             else if includes_js textData ''Session Expired'' then
               (Some \<lparr>status = 401, json = ErrorMsg ''Session Expired''\<rparr>, [url])
             else courses_response e [url] textData)
      else (None, []))"

section \<open>Facts about searching and splitting\<close>

lemma prefix_includes: "prefix p s \<Longrightarrow> includes_js s p"
  by (cases s) (auto simp: includes_js_def)

lemma includes_Cons: "includes_js s p \<Longrightarrow> includes_js (a # s) p"
  by (auto simp: includes_js_def)

lemma includes_drop: "includes_js (drop j s) p \<Longrightarrow> includes_js s p"
proof (induction s arbitrary: j)
  case Nil
  then show ?case by simp
next
  case (Cons a s)
  show ?case
  proof (cases j)
    case 0
    with Cons.prems show ?thesis by simp
  next
    case (Suc k)
    with Cons.prems have "includes_js (drop k s) p" by simp
    then show ?thesis by (intro includes_Cons Cons.IH)
  qed
qed

lemma includes_append: "includes_js (a @ p @ b) p"
  using includes_drop[of "length a" "a @ p @ b" p] by (simp add: prefix_includes)

lemma includes_single: "includes_js s [c] \<Longrightarrow> c \<in> set s"
  by (induction s) (auto simp: includes_js_def split: if_splits)

lemma indexOf_Some: "indexOf s p = Some i \<Longrightarrow> i \<le> length s \<and> prefix p (drop i s)"
proof (induction s arbitrary: i)
  case Nil
  then show ?case by (auto split: if_splits)
next
  case (Cons c cs)
  then show ?case by (auto split: if_splits)
qed

lemma includes_set: "includes_js s p \<Longrightarrow> set p \<subseteq> set s"
proof -
  assume "includes_js s p"
  then obtain i where "indexOf s p = Some i" by (auto simp: includes_js_def)
  then have "prefix p (drop i s)" using indexOf_Some by blast
  then have "set p \<subseteq> set (drop i s)" by (rule set_mono_prefix)
  then show ?thesis using set_drop_subset[of i s] by blast
qed

lemma indexOf_least: "indexOf s p = Some i \<Longrightarrow> j < i \<Longrightarrow> \<not> prefix p (drop j s)"
proof (induction s arbitrary: i j)
  case Nil
  then show ?case by (auto split: if_splits)
next
  case (Cons c cs)
  show ?case
  proof (cases "prefix p (c # cs)")
    case True
    with Cons.prems show ?thesis by simp
  next
    case False
    with Cons.prems obtain i' where i': "indexOf cs p = Some i'" "i = Suc i'" by auto
    show ?thesis
    proof (cases j)
      case 0
      with False show ?thesis by simp
    next
      case (Suc k)
      with Cons.prems i' have "k < i'" by simp
      from Cons.IH[OF i'(1) this] Suc show ?thesis by simp
    qed
  qed
qed

lemma indexOf_None: "indexOf s p = None \<Longrightarrow> j \<le> length s \<Longrightarrow> \<not> prefix p (drop j s)"
proof (induction s arbitrary: j)
  case Nil
  then show ?case by (auto split: if_splits)
next
  case (Cons c cs)
  then show ?case by (cases j) (auto split: if_splits)
qed

text \<open>The first occurrence is the least position where the pattern starts.\<close>

lemma indexOf_at:
  assumes "prefix p (drop i s)" "i \<le> length s" "\<forall>j<i. \<not> prefix p (drop j s)"
  shows "indexOf s p = Some i"
proof (cases "indexOf s p")
  case None
  from indexOf_None[OF None assms(2)] assms(1) show ?thesis by simp
next
  case (Some k)
  from indexOf_Some[OF Some] have k: "prefix p (drop k s)" by simp
  have "\<not> k < i" using assms(3) k by auto
  moreover have "\<not> i < k" using indexOf_least[OF Some] assms(1) by auto
  ultimately show ?thesis using Some by simp
qed

lemma prefix_shorten: "prefix p (ys @ zs) \<Longrightarrow> length p \<le> length ys \<Longrightarrow> prefix p ys"
  using prefix_length_prefix[of p "ys @ zs" ys] by simp

lemma indexOf_append_first:
  assumes "\<not> includes_js (pre @ butlast p) p"
  shows "indexOf (pre @ p @ rest) p = Some (length pre)"
proof (rule indexOf_at)
  show "prefix p (drop (length pre) (pre @ p @ rest))" by simp
  show "length pre \<le> length (pre @ p @ rest)" by simp
  show "\<forall>j<length pre. \<not> prefix p (drop j (pre @ p @ rest))"
  proof (intro allI impI notI)
    fix j assume j: "j < length pre" and pf: "prefix p (drop j (pre @ p @ rest))"
    have pne: "p \<noteq> []" using assms prefix_includes[of "[]"] by auto
    let ?ys = "drop j pre @ butlast p"
    have eq: "drop j (pre @ p @ rest) = ?ys @ (last p # rest)"
      using j pne by simp
    have len: "length p \<le> length ?ys" using j pne by simp
    from pf eq have "prefix p (?ys @ (last p # rest))" by simp
    then have "prefix p ?ys"
      using len by (rule prefix_shorten)
    then have "includes_js (drop j (pre @ butlast p)) p"
      using j by (simp add: prefix_includes)
    then show False using assms includes_drop by blast
  qed
qed

lemma indexOf_beyond:
  assumes "indexOf (num @ c # rest) p = Some j" "c \<notin> set p" "\<not> includes_js num p"
  shows "length num < j"
proof (rule ccontr)
  assume "\<not> length num < j"
  then have j: "j \<le> length num" by simp
  from indexOf_Some[OF assms(1)] j have "prefix p (drop j num @ c # rest)" by simp
  then have "prefix p (drop j num)"
    using assms(2) by (auto simp: prefix_append prefix_Cons)
  then show False using assms(3) prefix_includes includes_drop by blast
qed

lemma split_js_Cons:
  "p \<noteq> [] \<Longrightarrow>
   \<exists>ys. split_js s p = (case indexOf s p of None \<Rightarrow> s | Some j \<Rightarrow> take j s) # ys"
  by (subst split_js.simps) (auto split: option.splits)

text \<open>\<open>s.split(p)[0]\<close> is always there: \<open>hd\<close> reads it.\<close>

lemma split_js_nonempty: "p \<noteq> [] \<Longrightarrow> split_js s p \<noteq> []"
  using split_js_Cons[of p s] by auto

text \<open>
  \<open>m.split(k)[1].split("%")[0]\<close> where the first \<open>k\<close> of \<open>m\<close> is followed by \<open>num\<close> and a
  percent sign: the piece read is \<open>num\<close>.
\<close>

lemma number_after_decomp:
  assumes "CHR ''%'' \<notin> set k" "\<not> includes_js (pre @ butlast k) k"
    and "\<not> includes_js num k" "CHR ''%'' \<notin> set num"
  shows "number_after (pre @ k @ num @ CHR ''%'' # rest) k = Inr (parseFloat num)"
proof -
  have kne: "k \<noteq> []" using assms(2) prefix_includes[of "[]"] by auto
  let ?r = "num @ CHR ''%'' # rest"
  have first: "indexOf (pre @ k @ ?r) k = Some (length pre)"
    by (rule indexOf_append_first[OF assms(2)])
  have sp: "split_js (pre @ k @ ?r) k = pre # split_js ?r k"
    by (subst split_js.simps) (simp add: kne first)
  obtain ys where ys: "split_js ?r k = (case indexOf ?r k of None \<Rightarrow> ?r | Some j \<Rightarrow> take j ?r) # ys"
    using split_js_Cons[OF kne] by blast
  define t where "t = (case indexOf ?r k of None \<Rightarrow> ?r | Some j \<Rightarrow> take j ?r)"
  have "\<exists>r'. t = num @ CHR ''%'' # r'"
  proof (cases "indexOf ?r k")
    case None
    then show ?thesis by (simp add: t_def)
  next
    case (Some j)
    then have "length num < j"
      using indexOf_beyond[of num "CHR ''%''" rest k j] assms(1,3) by simp
    then obtain d where "j = Suc (length num + d)" using less_iff_Suc_add by auto
    then show ?thesis using Some by (simp add: t_def)
  qed
  then obtain r' where t: "t = num @ CHR ''%'' # r'" by blast
  have "\<not> includes_js (num @ butlast ''%'') ''%''"
    using assms(4) includes_single by fastforce
  from indexOf_append_first[OF this, of r'] have "indexOf t ''%'' = Some (length num)"
    by (simp add: t)
  then have "hd (split_js t ''%'') = num"
    by (subst split_js.simps) (simp add: t)
  then show ?thesis
    using sp ys by (simp add: number_after_def t_def)
qed

section \<open>The Number value of a decimal\<close>

text \<open>
  Facts about \<open>to_double\<close>: the exponent found is the right one, values of at most
  \<open>2^(-1075)\<close> become zero, values from \<open>2^1024\<close> on become an infinity, and a double is
  kept as it is.
\<close>

lemma pow2_powi: "pow2 e = 2 powi e"
  by (simp add: pow2_def power_int_def inverse_eq_divide power_one_over)

lemma pow2_pos: "0 < pow2 e"
  by (simp add: pow2_powi)

lemma pow2_add: "pow2 (a + b) = pow2 a * pow2 b"
  by (simp add: pow2_powi power_int_add)

lemma pow2_mono: "a \<le> b \<Longrightarrow> pow2 a \<le> pow2 b"
  by (simp add: pow2_powi power_int_increasing)

lemma pow2_nat: "0 \<le> e \<Longrightarrow> pow2 e = of_int (2 ^ nat e)"
  by (simp add: pow2_def)

lemma bit_length_bounds:
  "0 < n \<Longrightarrow> 0 < bit_length n \<and> 2 ^ nat (bit_length n - 1) \<le> n \<and> n < 2 ^ nat (bit_length n)"
proof (induction n rule: bit_length.induct)
  case (1 n)
  show ?case
  proof (cases "n div 2 = 0")
    case True
    with 1(2) have n1: "n = 1" by presburger
    have "bit_length 1 = 1"
      by (simp add: bit_length.simps[of 1] bit_length.simps[of 0])
    then show ?thesis using n1 by simp
  next
    case False
    with 1(2) have m: "0 < n div 2" by presburger
    from 1(1)[OF _ m] 1(2) have ih: "0 < bit_length (n div 2)"
      "2 ^ nat (bit_length (n div 2) - 1) \<le> n div 2" "n div 2 < 2 ^ nat (bit_length (n div 2))"
      by auto
    define k where "k = nat (bit_length (n div 2) - 1)"
    have bl: "bit_length n = 1 + bit_length (n div 2)"
      using 1(2) by (simp add: bit_length.simps[of n])
    have k1: "nat (bit_length (n div 2)) = Suc k" using ih(1) by (simp add: k_def)
    have k2: "nat (bit_length n - 1) = Suc k" "nat (bit_length n) = Suc (Suc k)"
      using ih(1) bl by (simp_all add: k_def)
    have lo: "(2::int) ^ k \<le> n div 2" using ih(2) by (simp add: k_def)
    have hi: "n div 2 < (2::int) ^ Suc k" using ih(3) k1 by simp
    have "2 * (n div 2) \<le> n" "n < 2 * (n div 2) + 2" by presburger+
    then have "(2::int) ^ Suc k \<le> n" "n < 2 ^ Suc (Suc k)" using lo hi by simp_all
    then show ?thesis using k2 bl ih(1) by simp
  qed
qed

lemma log2_floor_bounds:
  assumes "0 < a"
  shows "pow2 (log2_floor a) \<le> a \<and> a < pow2 (log2_floor a + 1)"
proof (cases "1 \<le> a")
  case True
  define n where "n = \<lfloor>a\<rfloor>"
  have n: "0 < n" using True by (simp add: n_def)
  from bit_length_bounds[OF n] have b: "0 < bit_length n"
    "2 ^ nat (bit_length n - 1) \<le> n" "n < 2 ^ nat (bit_length n)" by auto
  have e: "log2_floor a = bit_length n - 1" using True by (simp add: log2_floor_def n_def)
  have "pow2 (bit_length n - 1) = of_int (2 ^ nat (bit_length n - 1))"
    using b(1) by (intro pow2_nat) simp
  also have "\<dots> \<le> of_int n" using b(2) by (simp only: of_int_le_iff)
  also have "\<dots> \<le> a" by (simp add: n_def)
  finally have lo: "pow2 (log2_floor a) \<le> a" by (simp add: e)
  have "n + 1 \<le> 2 ^ nat (bit_length n)" using b(3) by simp
  then have "(of_int (n + 1) :: rat) \<le> of_int (2 ^ nat (bit_length n))"
    by (simp only: of_int_le_iff)
  moreover have "a < of_int (n + 1)" using floor_correct[of a] by (simp add: n_def)
  moreover have "pow2 (bit_length n) = of_int (2 ^ nat (bit_length n))"
    using b(1) by (intro pow2_nat) simp
  ultimately have "a < pow2 (log2_floor a + 1)" by (simp add: e)
  with lo show ?thesis by simp
next
  case False
  define x where "x = 1 / a"
  have x1: "1 < x" using False assms by (simp add: x_def)
  define m where "m = \<lceil>x\<rceil> - 1"
  have m: "0 < m" using x1 by (simp add: m_def less_ceiling_iff)
  from bit_length_bounds[OF m] have b: "0 < bit_length m"
    "2 ^ nat (bit_length m - 1) \<le> m" "m < 2 ^ nat (bit_length m)" by auto
  define k where "k = nat (bit_length m - 1)"
  have bk: "bit_length m = int (Suc k)" using b(1) by (simp add: k_def)
  have "log2_floor a = - bit_length m" using False by (simp add: log2_floor_def m_def x_def)
  then have e: "log2_floor a = - int (Suc k)" using bk by simp
  have p1: "pow2 (- int (Suc k)) = 1 / 2 ^ Suc k" by (simp add: pow2_def del: of_nat_Suc)
  have "- int (Suc k) + 1 = - int k" by simp
  moreover have "pow2 (- int k) = 1 / 2 ^ k" by (cases k) (simp_all add: pow2_def del: of_nat_Suc)
  ultimately have p2: "pow2 (- int (Suc k) + 1) = 1 / 2 ^ k" by (simp only:)
  have nk: "nat (bit_length m) = Suc k" using b(1) by (simp add: k_def)
  have "m < 2 ^ Suc k" using b(3) by (simp only: nk)
  then have "m + 1 \<le> 2 ^ Suc k" by simp
  then have m1: "(of_int (m + 1) :: rat) \<le> of_int (2 ^ Suc k)" by (simp only: of_int_le_iff)
  have "x \<le> of_int (m + 1)" by (simp add: m_def)
  also note m1
  also have "(of_int (2 ^ Suc k) :: rat) = 2 ^ Suc k" by simp
  finally have xk: "x \<le> 2 ^ Suc k" .
  have mk: "(of_int (2 ^ k) :: rat) \<le> of_int m" using b(2) by (simp only: of_int_le_iff k_def)
  have mx: "of_int m < x" by (simp add: m_def) linarith
  have "(2::rat) ^ k = of_int (2 ^ k)" by simp
  also note mk
  also note mx
  finally have kx: "2 ^ k < x" .
  have ax: "a = 1 / x" using assms by (simp add: x_def)
  have xpos: "0 < x" using x1 by simp
  have lo: "1 / 2 ^ Suc k \<le> a"
    unfolding ax using xk xpos by (intro divide_left_mono) simp_all
  have hi: "a < 1 / 2 ^ k"
    unfolding ax using kx xpos by (intro divide_strict_left_mono) simp_all
  show ?thesis unfolding e p1 p2 using lo hi by (rule conjI)
qed

lemma pow2_strict_mono: "a < b \<Longrightarrow> pow2 a < pow2 b"
  by (simp add: pow2_powi power_int_strict_increasing)

lemma pow2_less_iff: "pow2 a < pow2 b \<longleftrightarrow> a < b"
  using pow2_strict_mono[of a b] pow2_mono[of b a] by (cases "a < b") auto

lemma pow2_diff: "pow2 a / pow2 b = pow2 (a - b)"
  by (simp add: pow2_powi power_int_diff)

lemma round_half_even_of_int: "round_half_even (of_int k) = k"
  by (simp add: round_half_even_def)

lemma round_half_even_ge_floor: "\<lfloor>x\<rfloor> \<le> round_half_even x"
  by (simp add: round_half_even_def Let_def)

text \<open>Underflow: at most half of the least subnormal becomes zero.\<close>

lemma to_double_underflow:
  assumes "\<bar>v\<bar> \<le> pow2 (- 1075)"
  shows "to_double v = Num 0"
proof (cases "v = 0")
  case True
  then show ?thesis by (simp add: to_double_def)
next
  case False
  define a where "a = \<bar>v\<bar>"
  have apos: "0 < a" using False by (simp add: a_def)
  from log2_floor_bounds[OF apos] have "pow2 (log2_floor a) \<le> a" by simp
  also have "a \<le> pow2 (- 1075)" using assms by (simp add: a_def)
  also have "pow2 (- 1075) < pow2 (- 1022)" by (rule pow2_strict_mono) simp
  finally have "log2_floor a < - 1022" by (simp only: pow2_less_iff)
  then have e: "max (log2_floor a) (- 1022) = - 1022" by simp
  define x where "x = a / pow2 (- 1074)"
  have xpos: "0 < x" using apos pow2_pos[of "- 1074"] by (simp add: x_def)
  have "x \<le> pow2 (- 1075) / pow2 (- 1074)"
    unfolding x_def using assms pow2_pos[of "- 1074"]
    by (intro divide_right_mono) (simp_all add: a_def)
  also have "\<dots> = 1 / 2" by (simp add: pow2_diff) (simp add: pow2_def)
  finally have xle: "x \<le> 1 / 2" .
  have fl: "\<lfloor>x\<rfloor> = 0" using xpos xle by (simp add: floor_eq_iff)
  have r: "round_half_even x = 0"
    using xle by (simp add: round_half_even_def fl Let_def)
  have "to_double v = (let r = of_int (round_half_even x) * pow2 (- 1074)
          in if pow2 1024 \<le> r then Infinity (v < 0) else Num (if v < 0 then - r else r))"
    using False e by (simp add: to_double_def Let_def a_def[symmetric] x_def[symmetric])
  then show ?thesis
    using pow2_pos[of 1024] by (simp add: r Let_def not_le)
qed

text \<open>Overflow: from \<open>2^1024\<close> on the value is an infinity.\<close>

lemma to_double_overflow:
  assumes "pow2 1024 \<le> \<bar>v\<bar>"
  shows "to_double v = Infinity (v < 0)"
proof -
  define a where "a = \<bar>v\<bar>"
  have apos: "0 < a" using assms pow2_pos[of 1024] by (simp add: a_def)
  then have v0: "v \<noteq> 0" by (auto simp: a_def)
  define e where "e = log2_floor a"
  from log2_floor_bounds[OF apos] have lo: "pow2 e \<le> a" and hi: "a < pow2 (e + 1)"
    by (simp_all add: e_def)
  have "pow2 1024 < pow2 (e + 1)" using assms hi by (simp add: a_def)
  then have e1024: "1024 \<le> e" by (simp add: pow2_less_iff)
  then have me: "max e (- 1022) = e" by simp
  define x where "x = a / pow2 (e - 52)"
  have "pow2 e / pow2 (e - 52) \<le> x"
    unfolding x_def using lo pow2_pos[of "e - 52"] by (intro divide_right_mono) simp_all
  then have "of_int (2 ^ 52) \<le> x" by (simp add: pow2_diff) (simp add: pow2_def)
  then have "2 ^ 52 \<le> \<lfloor>x\<rfloor>" by (simp only: le_floor_iff)
  then have "2 ^ 52 \<le> round_half_even x" using round_half_even_ge_floor[of x] by linarith
  then have "(of_int (2 ^ 52) :: rat) \<le> of_int (round_half_even x)" by (simp only: of_int_le_iff)
  then have "of_int (2 ^ 52) * pow2 (e - 52) \<le> of_int (round_half_even x) * pow2 (e - 52)"
    using pow2_pos[of "e - 52"] by (intro mult_right_mono) simp_all
  moreover have "(of_int (2 ^ 52) :: rat) * pow2 (e - 52) = pow2 e"
    using pow2_add[of 52 "e - 52"] by (simp add: pow2_def)
  ultimately have "pow2 e \<le> of_int (round_half_even x) * pow2 (e - 52)" by simp
  moreover have "pow2 1024 \<le> pow2 e" using e1024 by (rule pow2_mono)
  ultimately have big: "pow2 1024 \<le> of_int (round_half_even x) * pow2 (e - 52)" by simp
  have "to_double v = (let r = of_int (round_half_even x) * pow2 (e - 52)
          in if pow2 1024 \<le> r then Infinity (v < 0) else Num (if v < 0 then - r else r))"
    using v0 me by (simp add: to_double_def Let_def a_def[symmetric] e_def[symmetric] x_def[symmetric])
  then show ?thesis using big by (simp add: Let_def)
qed

text \<open>A double is its own Number value: \<open>n * 2^q\<close> with \<open>|n| < 2^53\<close> and \<open>q\<close> from -1074 on.\<close>

lemma to_double_exact:
  assumes "v = of_int n * pow2 q" "\<bar>n\<bar> < 2 ^ 53" "- 1074 \<le> q" "\<bar>v\<bar> < pow2 1024"
  shows "to_double v = Num v"
proof (cases "v = 0")
  case True
  then show ?thesis by (simp add: to_double_def)
next
  case False
  define a where "a = \<bar>v\<bar>"
  have apos: "0 < a" using False by (simp add: a_def)
  have a_eq: "a = of_int \<bar>n\<bar> * pow2 q"
    using pow2_pos[of q] by (simp add: a_def assms(1) abs_mult)
  define e where "e = max (log2_floor a) (- 1022)"
  have "(of_int \<bar>n\<bar> :: rat) < of_int (2 ^ 53)" using assms(2) by (simp only: of_int_less_iff)
  then have "a < of_int (2 ^ 53) * pow2 q"
    unfolding a_eq using pow2_pos[of q] by (intro mult_strict_right_mono) simp_all
  also have "(of_int (2 ^ 53) :: rat) * pow2 q = pow2 (q + 53)"
    using pow2_add[of 53 q] by (simp add: pow2_def add.commute)
  finally have "a < pow2 (q + 53)" .
  moreover from log2_floor_bounds[OF apos] have "pow2 (log2_floor a) \<le> a" by simp
  ultimately have "pow2 (log2_floor a) < pow2 (q + 53)" by simp
  then have "log2_floor a < q + 53" by (simp only: pow2_less_iff)
  then have ele: "e \<le> q + 52" using assms(3) by (simp add: e_def)
  define d where "d = nat (q - (e - 52))"
  have dq: "q = (e - 52) + int d" using ele by (simp add: d_def)
  have "pow2 q = pow2 (e - 52) * pow2 (int d)" by (subst dq) (rule pow2_add)
  also have "pow2 (int d) = of_int (2 ^ d)" by (simp add: pow2_def)
  finally have pq: "pow2 q = pow2 (e - 52) * of_int (2 ^ d)" .
  have x: "a / pow2 (e - 52) = of_int (\<bar>n\<bar> * 2 ^ d)"
    using pow2_pos[of "e - 52"] by (simp add: a_eq pq)
  have r: "of_int (round_half_even (a / pow2 (e - 52))) * pow2 (e - 52) = a"
    unfolding x round_half_even_of_int by (simp add: a_eq pq)
  have "to_double v = (let r = of_int (round_half_even (a / pow2 (e - 52))) * pow2 (e - 52)
          in if pow2 1024 \<le> r then Infinity (v < 0) else Num (if v < 0 then - r else r))"
    using False by (simp add: to_double_def Let_def a_def[symmetric] e_def[symmetric])
  then have "to_double v = Num (if v < 0 then - a else a)"
    using assms(4) by (simp add: r Let_def a_def[symmetric] not_le)
  then show ?thesis by (simp add: a_def)
qed

text \<open>\<open>parseFloat\<close> on an underflow, on an overflow, and on two decimals that are rounded.\<close>

lemma parseFloat_underflow_example: "parseFloat ''1e-400'' = Num 0"
proof -
  have "parseFloat ''1e-400'' = to_double (1 * pow10 (- 400))"
    by (simp add: parseFloat_def unsigned_literal_def is_ws_def is_digit_def digits_val_def
        digit_val_def exponent_of_def Let_def)
  moreover have "\<bar>1 * pow10 (- 400)\<bar> \<le> pow2 (- 1075)"
    by (simp add: pow10_def pow2_def)
  ultimately show ?thesis by (simp only: to_double_underflow)
qed

lemma parseFloat_overflow_example: "parseFloat ''1e400'' = Infinity False"
proof -
  have "parseFloat ''1e400'' = to_double (1 * pow10 400)"
    by (simp add: parseFloat_def unsigned_literal_def is_ws_def is_digit_def digits_val_def
        digit_val_def exponent_of_def Let_def)
  moreover have "pow2 1024 \<le> \<bar>1 * pow10 400\<bar>"
    by (simp add: pow10_def pow2_def)
  ultimately show ?thesis using to_double_overflow[of "1 * pow10 400"] by (simp add: pow10_def)
qed

lemma parseFloat_rounds_example:
  "parseFloat ''0.1'' = Num (3602879701896397 / 36028797018963968)
   \<and> parseFloat ''9007199254740993'' = Num 9007199254740992"
  by code_simp

section \<open>The overall mark: which pattern wins\<close>

text \<open>
  C1, as the code has it. A mark text that, spaces removed, reads
  \<open>pre FINALMARK: num % rest\<close>, this \<open>FINALMARK:\<close> being the first one and \<open>num\<close> a number
  written with digits and the decimal point (\<open>parseFloat num\<close> is not \<open>NaN\<close>), gives that
  number as the mark, with \<open>isFinal\<close> true and \<open>isMidterm\<close> false. Nothing is asked of \<open>pre\<close>
  and \<open>rest\<close> beyond that, so a \<open>currentmark\<close> fragment in them changes nothing: the branch
  of \<open>currentmark\<close> is not reached. A text where no number follows \<open>FINALMARK:\<close> is outside
  this statement.
\<close>

theorem parseOverallMark_final_wins:
  assumes "replaceAll mark0 '' '' '''' = pre @ ''FINALMARK:'' @ num @ ''%'' @ rest"
    and "\<not> includes_js (pre @ ''FINALMARK'') ''FINALMARK:''"
    and "set num \<subseteq> set ''0123456789.''"
    and "parseFloat num \<noteq> NaN"
  shows "parseOverallMark mark0 =
           Inr \<lparr>mark = Number (parseFloat num), overall.isFinal = True, overall.isMidterm = False\<rparr>"
proof -
  let ?m = "replaceAll mark0 '' '' ''''"
  have "includes_js (pre @ ''FINAL'' @ (''MARK:'' @ num @ ''%'' @ rest)) ''FINAL''"
    by (rule includes_append)
  then have fin: "includes_js ?m ''FINAL''"
    using assms(1) by simp
  have pc: "CHR ''%'' \<notin> set num" using assms(3) by auto
  have "\<not> set ''FINALMARK:'' \<subseteq> set num" using assms(3) by auto
  then have nf: "\<not> includes_js num ''FINALMARK:''" using includes_set by blast
  have "number_after (pre @ ''FINALMARK:'' @ num @ CHR ''%'' # rest) ''FINALMARK:'' =
          Inr (parseFloat num)"
    using assms(2) nf pc by (intro number_after_decomp) simp_all
  then have "number_after ?m ''FINALMARK:'' = Inr (parseFloat num)"
    using assms(1) by simp
  then show ?thesis
    using fin by (simp add: parseOverallMark_def Let_def)
qed

theorem parseOverallMark_final_wins_witness:
  "parseOverallMark ''FINAL MARK: 87.5% current mark = 60%'' =
     Inr \<lparr>mark = Number (Num (175 / 2)), overall.isFinal = True, overall.isMidterm = False\<rparr>
   \<and> includes_js (replaceAll ''FINAL MARK: 87.5% current mark = 60%'' '' '' '''') ''currentmark''"
proof -
  have a: "replaceAll ''FINAL MARK: 87.5% current mark = 60%'' '' '' '''' =
             [] @ ''FINALMARK:'' @ ''87.5'' @ ''%'' @ ''currentmark=60%''"
    by code_simp
  have b: "\<not> includes_js ([] @ ''FINALMARK'') ''FINALMARK:''" by code_simp
  have c: "set ''87.5'' \<subseteq> set ''0123456789.''" by simp
  have e: "parseFloat ''87.5'' = Num (175 / 2)" by code_simp
  then have d: "parseFloat ''87.5'' \<noteq> NaN" by simp
  have f: "includes_js (replaceAll ''FINAL MARK: 87.5% current mark = 60%'' '' '' '''') ''currentmark''"
    by code_simp
  from parseOverallMark_final_wins[OF a b c d] e f show ?thesis by simp
qed

text \<open>
  C1 as stated fails: \<open>"FINAL currentmark = 80%"\<close> holds both \<open>FINAL\<close> and \<open>currentmark\<close>
  once the spaces are removed, and no number is returned for it:
  \<open>mark.split("FINALMARK:")[1]\<close> is \<open>undefined\<close> and the call throws.
\<close>

theorem parseOverallMark_final_without_number:
  "includes_js (replaceAll ''FINAL currentmark = 80%'' '' '' '''') ''FINAL''
   \<and> includes_js (replaceAll ''FINAL currentmark = 80%'' '' '' '''') ''currentmark''
   \<and> parseOverallMark ''FINAL currentmark = 80%'' = Inl TypeError"
  by code_simp

text \<open>When none of the three patterns is found the result is the initial one.\<close>

lemma parseOverallMark_no_pattern:
  assumes "\<not> includes_js (replaceAll mark0 '' '' '''') ''FINAL''"
    and "\<not> includes_js (replaceAll mark0 '' '' '''') ''currentmark''"
    and "\<not> includes_js (replaceAll mark0 '' '' '''') ''MIDTERM''"
  shows "parseOverallMark mark0 =
           Inr \<lparr>mark = NA, overall.isFinal = False, overall.isMidterm = False\<rparr>"
  using assms by (simp add: parseOverallMark_def Let_def)

text \<open>
  C2 at two inputs where a pattern is found and the extraction fails. On \<open>"FINAL"\<close> the
  function throws; on \<open>"FINAL MARK: abc%"\<close> it returns \<open>NaN\<close>, not the sentinel, with
  \<open>isFinal\<close> set.
\<close>

theorem parseOverallMark_extraction_failure:
  "parseOverallMark ''FINAL'' = Inl TypeError
   \<and> parseOverallMark ''FINAL MARK: abc%'' =
       Inr \<lparr>mark = Number NaN, overall.isFinal = True, overall.isMidterm = False\<rparr>"
  by code_simp

section \<open>The assignment table: rows and categories\<close>

lemma set_category_name: "Assignment.name (set_category elem a item) = Assignment.name a"
  by (simp add: set_category_def Let_def)

lemma set_category_feedback: "feedback (set_category elem a item) = feedback a"
  by (simp add: set_category_def Let_def)

lemma foldl_set_category_name:
  "Assignment.name (foldl (set_category elem) a items) = Assignment.name a"
  by (induction items arbitrary: a) (simp_all add: set_category_name)

lemma foldl_set_category_feedback:
  "feedback (foldl (set_category elem) a items) = feedback a"
  by (induction items arbitrary: a) (simp_all add: set_category_feedback)

lemma foldl_set_category_other:
  "key \<notin> fst ` set items \<Longrightarrow> marks (foldl (set_category elem) a items) key = marks a key"
  by (induction items arbitrary: a) (auto simp: set_category_def Let_def)

lemma foldl_set_category_marks:
  assumes "distinct (map fst items)" "(key, color) \<in> set items"
  shows "marks (foldl (set_category elem) a items) key =
           (let category = trim (replaceAll (td_bgcolor elem color) [CHR 0x09] '''')
            in if category \<noteq> [] then Some [category_mark category] else marks a key)"
  using assms
proof (induction items arbitrary: a)
  case Nil
  then show ?case by simp
next
  case (Cons item items)
  show ?case
  proof (cases "item = (key, color)")
    case True
    with Cons.prems have "key \<notin> fst ` set items" by auto
    then have "marks (foldl (set_category elem) (set_category elem a item) items) key =
                 marks (set_category elem a item) key"
      by (rule foldl_set_category_other)
    moreover have "marks (set_category elem a item) key =
           (let category = trim (replaceAll (td_bgcolor elem color) [CHR 0x09] '''')
            in if category \<noteq> [] then Some [category_mark category] else marks a key)"
      using True by (simp add: set_category_def Let_def)
    ultimately show ?thesis by simp
  next
    case False
    with Cons.prems have in_rest: "(key, color) \<in> set items" and d: "distinct (map fst items)"
      and ne: "fst item \<noteq> key"
      by (auto simp: image_iff)
    show ?thesis
      using Cons.IH[OF d in_rest, of "set_category elem a item"] ne
      by (simp add: set_category_def Let_def)
  qed
qed

lemma assignment_row_name:
  "Assignment.name (assignment_row elem) = replaceAll (td_rowspan2 elem) [CHR 0x09] ''''"
  by (simp add: assignment_row_def foldl_set_category_name)

lemma assignment_row_feedback: "feedback (assignment_row elem) = None"
  by (simp add: assignment_row_def foldl_set_category_feedback)

lemma assignment_row_marks:
  assumes "(key, color) \<in> set category_colors"
  shows "marks (assignment_row elem) key =
           (let category = trim (replaceAll (td_bgcolor elem color) [CHR 0x09] '''')
            in if category \<noteq> [] then Some [category_mark category] else None)"
proof -
  have "distinct (map fst category_colors)" by (simp add: category_colors_def)
  from foldl_set_category_marks[OF this assms] show ?thesis
    by (simp add: assignment_row_def Let_def)
qed

lemma each_row_even:
  "even c \<Longrightarrow> 2 \<le> c \<Longrightarrow>
   \<exists>bs. each_row c as elems = Inr (as @ bs) \<and> length bs = (length elems + 1) div 2 \<and>
     (\<forall>j<length bs. bs ! j =
        (assignment_row (elems ! (2 * j)))
          \<lparr>feedback := (if 2 * j + 1 < length elems
                         then Some (trim (row_text (elems ! (2 * j + 1)))) else None)\<rparr>)"
proof (induction elems arbitrary: c as rule: induct_list012)
  case 1
  then show ?case by simp
next
  case (2 a)
  then have "Suc c mod 2 = 1" by presburger
  then have "each_row c as [a] = Inr (as @ [assignment_row a])"
    by (simp add: Let_def)
  moreover have "(assignment_row a)\<lparr>feedback := None\<rparr> = assignment_row a"
    using assignment_row_feedback[of a] by (cases "assignment_row a") simp
  ultimately show ?case by simp
next
  case (3 a f rest)
  let ?x = "(assignment_row a)\<lparr>feedback := Some (trim (row_text f))\<rparr>"
  have c2: "even (c + 2)" "2 \<le> c + 2" using 3(3,4) by simp_all
  have "Suc c mod 2 = 1" using 3(3) by presburger
  moreover have "Suc (Suc c) mod 2 = 0" using 3(3) by presburger
  ultimately have step: "each_row c as (a # f # rest) = each_row (c + 2) (as @ [?x]) rest"
    using 3(4) by (simp add: Let_def set_last_feedback_def)
  from 3(1)[OF c2, of "as @ [?x]"]
  obtain bs where bs: "each_row (c + 2) (as @ [?x]) rest = Inr ((as @ [?x]) @ bs)"
      "length bs = (length rest + 1) div 2"
      "\<forall>j<length bs. bs ! j =
        (assignment_row (rest ! (2 * j)))
          \<lparr>feedback := (if 2 * j + 1 < length rest
                         then Some (trim (row_text (rest ! (2 * j + 1)))) else None)\<rparr>"
    by blast
  have "\<forall>j<length (?x # bs). (?x # bs) ! j =
        (assignment_row ((a # f # rest) ! (2 * j)))
          \<lparr>feedback := (if 2 * j + 1 < length (a # f # rest)
                         then Some (trim (row_text ((a # f # rest) ! (2 * j + 1)))) else None)\<rparr>"
  proof (intro allI impI)
    fix j assume "j < length (?x # bs)"
    then show "(?x # bs) ! j =
        (assignment_row ((a # f # rest) ! (2 * j)))
          \<lparr>feedback := (if 2 * j + 1 < length (a # f # rest)
                         then Some (trim (row_text ((a # f # rest) ! (2 * j + 1)))) else None)\<rparr>"
      using bs(3) by (cases j) simp_all
  qed
  moreover have "length (?x # bs) = (length (a # f # rest) + 1) div 2"
    using bs(2) by simp
  moreover have "each_row c as (a # f # rest) = Inr (as @ (?x # bs))"
    using step bs(1) by simp
  ultimately show ?case by blast
qed

lemma parse_assignments_rows:
  "\<exists>as. parse_assignments elems = Inr as \<and> length as = length elems div 2 \<and>
     (\<forall>j<length as. as ! j =
        (assignment_row (elems ! (2 * j + 1)))
          \<lparr>feedback := (if 2 * j + 2 < length elems
                         then Some (trim (row_text (elems ! (2 * j + 2)))) else None)\<rparr>)"
proof (cases elems)
  case Nil
  then show ?thesis by (simp add: parse_assignments_def)
next
  case (Cons e0 rest)
  have "parse_assignments elems = each_row (Suc (Suc 0)) [] rest"
    by (simp add: Cons parse_assignments_def Let_def)
  moreover from each_row_even[of "Suc (Suc 0)" "[]" rest]
  obtain bs where "each_row (Suc (Suc 0)) [] rest = Inr bs" "length bs = (length rest + 1) div 2"
      "\<forall>j<length bs. bs ! j =
        (assignment_row (rest ! (2 * j)))
          \<lparr>feedback := (if 2 * j + 1 < length rest
                         then Some (trim (row_text (rest ! (2 * j + 1)))) else None)\<rparr>"
    by auto
  ultimately show ?thesis using Cons by simp
qed

text \<open>\<open>s.split(p)[1]\<close> is \<open>undefined\<close> exactly when \<open>p\<close> does not occur in \<open>s\<close>.\<close>

lemma split_second_iff:
  assumes "p \<noteq> []"
  shows "nth_opt (split_js s p) 1 = None \<longleftrightarrow> \<not> includes_js s p"
proof (cases "indexOf s p")
  case None
  then show ?thesis
    by (subst split_js.simps) (simp add: assms includes_js_def)
next
  case (Some i)
  obtain y ys where "split_js (drop (i + length p) s) p = y # ys"
    using split_js_Cons[OF assms] by blast
  then show ?thesis
    using Some by (subst split_js.simps) (simp add: assms includes_js_def)
qed

lemma parse_category_throws_iff:
  "(\<exists>err. parse_category category = Inl err) \<longleftrightarrow>
     \<not> includes_js category '' / '' \<or> \<not> includes_js category ''weight=''"
proof -
  have a: "nth_opt (split_js category '' / '') 1 = None \<longleftrightarrow> \<not> includes_js category '' / ''"
    by (rule split_second_iff) simp
  have b: "nth_opt (split_js category ''weight='') 1 = None \<longleftrightarrow> \<not> includes_js category ''weight=''"
    by (rule split_second_iff) simp
  show ?thesis
    using a b by (auto simp: parse_category_def split: option.splits)
qed

lemma parse_category_finished:
  "parse_category category = Inr m \<Longrightarrow> finished m = (\<not> includes_js category ''finished'')"
  by (auto simp: parse_category_def split: option.splits)

text \<open>
  C6. The rows of the assignment table are taken in turns. The counter is 2 at the first
  row visited (index 0), which gives neither an assignment nor a feedback; the rows of odd
  index (odd counter) give one assignment each, in order; the row of even index after such
  a row (even counter above 2), when there is one, becomes the feedback of that
  assignment, trimmed, and adds no assignment: there are as many assignments as rows of
  odd index. The parse never throws.
\<close>

theorem parse_assignments_alternates:
  "\<exists>as. parse_assignments elems = Inr as \<and> length as = length elems div 2 \<and>
     (\<forall>j<length as. as ! j =
        (assignment_row (elems ! (2 * j + 1)))
          \<lparr>feedback := (if 2 * j + 2 < length elems
                         then Some (trim (row_text (elems ! (2 * j + 2)))) else None)\<rparr>)"
  by (rule parse_assignments_rows)

theorem parse_assignments_alternates_witness:
  "\<exists>as. parse_assignments
           [\<lparr>row_text = ''Assignment'', td_rowspan2 = '''', td_bgcolor = (\<lambda>c. '''')\<rparr>,
            \<lparr>row_text = ''Quiz 1'', td_rowspan2 = ''Quiz 1'', td_bgcolor = (\<lambda>c. '''')\<rparr>,
            \<lparr>row_text = '' Good work '', td_rowspan2 = '''', td_bgcolor = (\<lambda>c. '''')\<rparr>,
            \<lparr>row_text = ''Quiz 2'', td_rowspan2 = ''Quiz 2'', td_bgcolor = (\<lambda>c. '''')\<rparr>] = Inr as
     \<and> length as = 2
     \<and> feedback (as ! 0) = Some ''Good work'' \<and> feedback (as ! 1) = None"
proof -
  let ?elems = "[\<lparr>row_text = ''Assignment'', td_rowspan2 = '''', td_bgcolor = (\<lambda>c. '''')\<rparr>,
            \<lparr>row_text = ''Quiz 1'', td_rowspan2 = ''Quiz 1'', td_bgcolor = (\<lambda>c. '''')\<rparr>,
            \<lparr>row_text = '' Good work '', td_rowspan2 = '''', td_bgcolor = (\<lambda>c. '''')\<rparr>,
            \<lparr>row_text = ''Quiz 2'', td_rowspan2 = ''Quiz 2'', td_bgcolor = (\<lambda>c. '''')\<rparr>]"
  from parse_assignments_alternates[of ?elems]
  obtain as where as: "parse_assignments ?elems = Inr as" "length as = length ?elems div 2"
    "\<forall>j<length as. as ! j =
        (assignment_row (?elems ! (2 * j + 1)))
          \<lparr>feedback := (if 2 * j + 2 < length ?elems
                         then Some (trim (row_text (?elems ! (2 * j + 2)))) else None)\<rparr>"
    by blast
  have len: "length as = 2" using as(2) by simp
  have t: "trim '' Good work '' = ''Good work''" by code_simp
  from as(3) len have "feedback (as ! 0) = Some ''Good work''"
    by (simp add: t)
  moreover from as(3) len have "feedback (as ! 1) = None"
    by simp
  ultimately show ?thesis using as(1) len by blast
qed

lemma includes_Nil: "includes_js [] p \<longleftrightarrow> p = []"
  by (simp add: includes_js_def)

lemma category_mark_example:
  "category_mark ''8 / 10 = 80% weight=25%'' =
     \<lparr>get = Num 8, total = Num 10, weight = Num 25, finished = True\<rparr>"
  by code_simp

text \<open>
  C7, as the code has it. For a pair of \<open>category_colors\<close> and the text of the matching
  cell, tabs removed and trimmed: \<open>"8 / 10 = 80% weight=25%"\<close> is stored as
  \<open>{ get: 8, total: 10, weight: 25, finished: true }\<close>; and whenever the text holds both
  \<open>" / "\<close> and \<open>"weight="\<close> (the parse does not throw), the mark stored has \<open>finished\<close>
  false exactly when the text holds \<open>"finished"\<close>.
\<close>

theorem category_mark_parsed:
  assumes "(key, color) \<in> set category_colors"
    and "category = trim (replaceAll (td_bgcolor elem color) [CHR 0x09] '''')"
  shows "(category = ''8 / 10 = 80% weight=25%'' \<longrightarrow>
            marks (assignment_row elem) key =
              Some [\<lparr>get = Num 8, total = Num 10, weight = Num 25, finished = True\<rparr>])
       \<and> (includes_js category '' / '' \<and> includes_js category ''weight='' \<longrightarrow>
            (\<exists>m. marks (assignment_row elem) key = Some [m]
                 \<and> finished m = (\<not> includes_js category ''finished'')))"
proof (intro conjI impI)
  assume "category = ''8 / 10 = 80% weight=25%''"
  then show "marks (assignment_row elem) key =
              Some [\<lparr>get = Num 8, total = Num 10, weight = Num 25, finished = True\<rparr>]"
    using assignment_row_marks[OF assms(1), of elem] assms(2)
    by (simp add: Let_def category_mark_example)
next
  assume inc: "includes_js category '' / '' \<and> includes_js category ''weight=''"
  then have ne: "category \<noteq> []" by (auto simp: includes_Nil)
  from inc parse_category_throws_iff[of category]
  obtain m where m: "parse_category category = Inr m"
    by (cases "parse_category category") auto
  then have "category_mark category = m" by (simp add: category_mark_def)
  then have "marks (assignment_row elem) key = Some [m]"
    using assignment_row_marks[OF assms(1), of elem] assms(2) ne by (simp add: Let_def)
  then show "\<exists>m. marks (assignment_row elem) key = Some [m]
                 \<and> finished m = (\<not> includes_js category ''finished'')"
    using parse_category_finished[OF m] by simp
qed

theorem category_mark_parsed_witness:
  "marks (assignment_row \<lparr>row_text = '''', td_rowspan2 = ''Quiz 1'',
            td_bgcolor = (\<lambda>c. if c = ''ffffaa'' then [CHR 0x09] @ '' 8 / 10 = 80% weight=25% '' else '''')\<rparr>)
        ''KU'' = Some [\<lparr>get = Num 8, total = Num 10, weight = Num 25, finished = True\<rparr>]
   \<and> (\<exists>m. marks (assignment_row \<lparr>row_text = '''', td_rowspan2 = ''Quiz 1'',
            td_bgcolor = (\<lambda>c. if c = ''ffd490'' then ''8 / 10 = 80% weight=25% not finished'' else '''')\<rparr>)
        ''A'' = Some [m] \<and> finished m = False)"
proof -
  let ?e1 = "\<lparr>row_text = '''', td_rowspan2 = ''Quiz 1'',
            td_bgcolor = (\<lambda>c. if c = ''ffffaa'' then [CHR 0x09] @ '' 8 / 10 = 80% weight=25% '' else '''')\<rparr>"
  let ?e2 = "\<lparr>row_text = '''', td_rowspan2 = ''Quiz 1'',
            td_bgcolor = (\<lambda>c. if c = ''ffd490'' then ''8 / 10 = 80% weight=25% not finished'' else '''')\<rparr>"
  have k1: "(''KU'', ''ffffaa'') \<in> set category_colors" by (simp add: category_colors_def)
  have k2: "(''A'', ''ffd490'') \<in> set category_colors" by (simp add: category_colors_def)
  have c1: "''8 / 10 = 80% weight=25%'' = trim (replaceAll (td_bgcolor ?e1 ''ffffaa'') [CHR 0x09] '''')"
    by code_simp
  have c2: "''8 / 10 = 80% weight=25% not finished'' =
              trim (replaceAll (td_bgcolor ?e2 ''ffd490'') [CHR 0x09] '''')"
    by code_simp
  have i1: "includes_js ''8 / 10 = 80% weight=25% not finished'' '' / ''" by code_simp
  have i2: "includes_js ''8 / 10 = 80% weight=25% not finished'' ''weight=''" by code_simp
  have i3: "includes_js ''8 / 10 = 80% weight=25% not finished'' ''finished''" by code_simp
  from category_mark_parsed[OF k1 c1] category_mark_parsed[OF k2 c2] i1 i2 i3
  show ?thesis by simp
qed

text \<open>
  C7 as stated, for every cell text, fails: the cell text \<open>"not finished"\<close> holds
  \<open>"finished"\<close>, the parse throws on it (no \<open>" / "\<close>), and the mark stored is the one of the
  \<open>catch\<close>, whose \<open>finished\<close> is true.
\<close>

theorem unparsed_cell_with_finished:
  "includes_js (trim (replaceAll ''not finished'' [CHR 0x09] '''')) ''finished''
   \<and> marks (assignment_row \<lparr>row_text = '''', td_rowspan2 = ''Quiz 1'',
            td_bgcolor = (\<lambda>c. if c = ''ffffaa'' then ''not finished'' else '''')\<rparr>) ''KU''
       = Some [\<lparr>get = Num 0, total = Num 0, weight = Num 0, finished = True\<rparr>]"
proof -
  let ?e = "\<lparr>row_text = '''', td_rowspan2 = ''Quiz 1'',
            td_bgcolor = (\<lambda>c. if c = ''ffffaa'' then ''not finished'' else '''')\<rparr>"
  have k: "(''KU'', ''ffffaa'') \<in> set category_colors" by (simp add: category_colors_def)
  have t: "trim (replaceAll ''not finished'' [CHR 0x09] '''') = ''not finished''" by code_simp
  have i: "includes_js ''not finished'' ''finished''" by code_simp
  have m: "category_mark ''not finished'' =
             \<lparr>get = Num 0, total = Num 0, weight = Num 0, finished = True\<rparr>" by code_simp
  from assignment_row_marks[OF k, of ?e] show ?thesis
    by (simp add: t i m)
qed

text \<open>
  C8. Let the row at index \<open>2 * j + 1\<close> of the assignment table have, for a pair of
  \<open>category_colors\<close>, a cell whose text (tabs removed, trimmed) is not empty and on which
  the parse throws. Then the row is emitted as the assignment of index \<open>j\<close>, its entry for
  that category is \<open>[{ get: 0, total: 0, weight: 0, finished: true }]\<close>, its name is the one
  of the row, and its entries for the other categories are what their own cells give.
\<close>

theorem failed_category_gets_placeholder:
  assumes "(key, color) \<in> set category_colors"
    and "category = trim (replaceAll (td_bgcolor elem color) [CHR 0x09] '''')"
    and "category \<noteq> []" and "parse_category category = Inl err"
    and "2 * j + 1 < length elems" and "elems ! (2 * j + 1) = elem"
  shows "\<exists>as. parse_assignments elems = Inr as \<and> j < length as
           \<and> marks (as ! j) key =
               Some [\<lparr>get = Num 0, total = Num 0, weight = Num 0, finished = True\<rparr>]
           \<and> Assignment.name (as ! j) = replaceAll (td_rowspan2 elem) [CHR 0x09] ''''
           \<and> (\<forall>(k', c') \<in> set category_colors. k' \<noteq> key \<longrightarrow>
                 marks (as ! j) k' =
                   (let cat' = trim (replaceAll (td_bgcolor elem c') [CHR 0x09] '''')
                    in if cat' \<noteq> [] then Some [category_mark cat'] else None))"
proof -
  from parse_assignments_rows[of elems]
  obtain as where as: "parse_assignments elems = Inr as" "length as = length elems div 2"
    "\<forall>j<length as. as ! j =
        (assignment_row (elems ! (2 * j + 1)))
          \<lparr>feedback := (if 2 * j + 2 < length elems
                         then Some (trim (row_text (elems ! (2 * j + 2)))) else None)\<rparr>"
    by blast
  have j: "j < length as" using as(2) assms(5) by simp
  with as(3) assms(6) obtain fb where asj: "as ! j = (assignment_row elem)\<lparr>feedback := fb\<rparr>"
    by auto
  have "category_mark category = \<lparr>get = Num 0, total = Num 0, weight = Num 0, finished = True\<rparr>"
    using assms(4) by (simp add: category_mark_def)
  then have m: "marks (as ! j) key =
               Some [\<lparr>get = Num 0, total = Num 0, weight = Num 0, finished = True\<rparr>]"
    using assignment_row_marks[OF assms(1), of elem] assms(2,3) asj by (simp add: Let_def)
  have n: "Assignment.name (as ! j) = replaceAll (td_rowspan2 elem) [CHR 0x09] ''''"
    using asj by (simp add: assignment_row_name)
  have o: "\<forall>(k', c') \<in> set category_colors. k' \<noteq> key \<longrightarrow>
                 marks (as ! j) k' =
                   (let cat' = trim (replaceAll (td_bgcolor elem c') [CHR 0x09] '''')
                    in if cat' \<noteq> [] then Some [category_mark cat'] else None)"
    using asj by (auto simp: assignment_row_marks)
  from as(1) j m n o show ?thesis by blast
qed

theorem failed_category_gets_placeholder_witness:
  "\<exists>as. parse_assignments
           [\<lparr>row_text = ''Assignment'', td_rowspan2 = '''', td_bgcolor = (\<lambda>c. '''')\<rparr>,
            \<lparr>row_text = ''Quiz 1'', td_rowspan2 = ''Quiz 1'',
             td_bgcolor = (\<lambda>c. if c = ''ffffaa'' then ''no mark''
                                else if c = ''ffd490'' then ''8 / 10 = 80% weight=25%'' else '''')\<rparr>]
          = Inr as
     \<and> marks (as ! 0) ''KU'' = Some [\<lparr>get = Num 0, total = Num 0, weight = Num 0, finished = True\<rparr>]
     \<and> Assignment.name (as ! 0) = ''Quiz 1''
     \<and> marks (as ! 0) ''A'' = Some [\<lparr>get = Num 8, total = Num 10, weight = Num 25, finished = True\<rparr>]"
proof -
  let ?h = "\<lparr>row_text = ''Assignment'', td_rowspan2 = '''', td_bgcolor = (\<lambda>c. '''')\<rparr>"
  let ?e = "\<lparr>row_text = ''Quiz 1'', td_rowspan2 = ''Quiz 1'',
             td_bgcolor = (\<lambda>c. if c = ''ffffaa'' then ''no mark''
                                else if c = ''ffd490'' then ''8 / 10 = 80% weight=25%'' else '''')\<rparr>"
  have k: "(''KU'', ''ffffaa'') \<in> set category_colors" by (simp add: category_colors_def)
  have a: "(''A'', ''ffd490'') \<in> set category_colors" by (simp add: category_colors_def)
  have c: "''no mark'' = trim (replaceAll (td_bgcolor ?e ''ffffaa'') [CHR 0x09] '''')"
    by code_simp
  have ne: "''no mark'' \<noteq> []" by simp
  have p: "parse_category ''no mark'' = Inl TypeError" by code_simp
  have l: "2 * 0 + 1 < length [?h, ?e]" by simp
  have n: "[?h, ?e] ! (2 * 0 + 1) = ?e" by simp
  have t: "trim (replaceAll ''8 / 10 = 80% weight=25%'' [CHR 0x09] '''') = ''8 / 10 = 80% weight=25%''"
    by code_simp
  have r: "replaceAll ''Quiz 1'' [CHR 0x09] '''' = ''Quiz 1''" by code_simp
  from failed_category_gets_placeholder[OF k c ne p l n]
  obtain as where as: "parse_assignments [?h, ?e] = Inr as"
    "marks (as ! 0) ''KU'' = Some [\<lparr>get = Num 0, total = Num 0, weight = Num 0, finished = True\<rparr>]"
    "Assignment.name (as ! 0) = replaceAll (td_rowspan2 ?e) [CHR 0x09] ''''"
    "\<forall>(k', c') \<in> set category_colors. k' \<noteq> ''KU'' \<longrightarrow>
                 marks (as ! 0) k' =
                   (let cat' = trim (replaceAll (td_bgcolor ?e c') [CHR 0x09] '''')
                    in if cat' \<noteq> [] then Some [category_mark cat'] else None)"
    by blast
  from bspec[OF as(4) a]
  have "marks (as ! 0) ''A'' = Some [\<lparr>get = Num 8, total = Num 10, weight = Num 25, finished = True\<rparr>]"
    by (simp add: t category_mark_example)
  with as(1,2,3) r show ?thesis by auto
qed

section \<open>The weight table: short categories\<close>

lemma nth_opt_None_iff: "nth_opt xs n = None \<longleftrightarrow> length xs \<le> n"
proof (induction xs arbitrary: n)
  case Nil
  then show ?case by simp
next
  case (Cons x xs)
  then show ?case by (cases n) simp_all
qed

lemma nth_opt_Some_less: "nth_opt xs n = Some x \<Longrightarrow> n < length xs"
  using nth_opt_None_iff[of xs n] by (cases "n < length xs") auto

lemma weight_entry_short:
  assumes "length ws < 3"
  shows "\<exists>err. weight_entry ws = Inl err"
proof -
  have "weight_entry ws = Inl TypeError"
    using assms
    by (auto simp: weight_entry_def Let_def split: option.splits dest!: nth_opt_Some_less)
  then show ?thesis by blast
qed

lemma foldl_set_weight_other:
  "key \<notin> fst ` set items \<Longrightarrow> foldl (set_weight doc) wt items key = wt key"
  by (induction items arbitrary: wt) (auto simp: set_weight_def Let_def split: sum.splits)

lemma foldl_set_weight_key:
  assumes "distinct (map fst items)" "(key, color) \<in> set items"
  shows "foldl (set_weight doc) wt items key =
           (case weight_entry (map trim (tr_cells doc (''#'' @ color))) of
              Inl err \<Rightarrow> wt key | Inr w \<Rightarrow> Some w)"
  using assms
proof (induction items arbitrary: wt)
  case Nil
  then show ?case by simp
next
  case (Cons item items)
  show ?case
  proof (cases "item = (key, color)")
    case True
    with Cons.prems have "key \<notin> fst ` set items" by auto
    then have "foldl (set_weight doc) (set_weight doc wt item) items key = set_weight doc wt item key"
      by (rule foldl_set_weight_other)
    moreover have "set_weight doc wt item key =
           (case weight_entry (map trim (tr_cells doc (''#'' @ color))) of
              Inl err \<Rightarrow> wt key | Inr w \<Rightarrow> Some w)"
      using True by (simp add: set_weight_def Let_def split: sum.splits)
    ultimately show ?thesis by simp
  next
    case False
    with Cons.prems have in_rest: "(key, color) \<in> set items" and d: "distinct (map fst items)"
      and ne: "fst item \<noteq> key"
      by (auto simp: image_iff)
    have "set_weight doc wt item key = wt key"
      using ne by (simp add: set_weight_def Let_def split: sum.splits)
    then show ?thesis
      using Cons.IH[OF d in_rest, of "set_weight doc wt item"] by (simp split: sum.splits)
  qed
qed

lemma parse_weight_table_key:
  assumes "(key, color) \<in> set weight_colors"
  shows "parse_weight_table doc key =
           (case weight_entry (map trim (tr_cells doc (''#'' @ color))) of
              Inl err \<Rightarrow> None | Inr w \<Rightarrow> Some w)"
proof -
  have "distinct (map fst weight_colors)" by (simp add: weight_colors_def)
  from foldl_set_weight_key[OF this assms] show ?thesis
    by (simp add: parse_weight_table_def)
qed

text \<open>
  C9. A category for which fewer than three cell values are collected (none included) has
  no key in the weight table, and the other categories have the entry that their own
  cells give. \<open>parse_weight_table\<close> returns a table in every case: the error is caught in
  the callback of the category.
\<close>

theorem short_category_absent:
  assumes "(key, color) \<in> set weight_colors"
    and "length (tr_cells doc (''#'' @ color)) < 3"
  shows "parse_weight_table doc key = None
       \<and> (\<forall>(k', c') \<in> set weight_colors. k' \<noteq> key \<longrightarrow>
            parse_weight_table doc k' =
              (case weight_entry (map trim (tr_cells doc (''#'' @ c'))) of
                 Inl err \<Rightarrow> None | Inr w \<Rightarrow> Some w))"
proof -
  have "length (map trim (tr_cells doc (''#'' @ color))) < 3" using assms(2) by simp
  from weight_entry_short[OF this]
  obtain err where "weight_entry (map trim (tr_cells doc (''#'' @ color))) = Inl err" by blast
  then have "parse_weight_table doc key = None"
    using parse_weight_table_key[OF assms(1), of doc] by simp
  then show ?thesis by (auto simp: parse_weight_table_key)
qed

theorem short_category_absent_witness:
  "parse_weight_table
     \<lparr>course_rows = [], assignment_rows = [],
      tr_cells = (\<lambda>c. if c = ''#ffffaa'' then [''Knowledge'', '' 25% '', ''17.5%'', ''90%'']
                       else if c = ''#ffd490'' then [''Application'', ''25%''] else [])\<rparr> ''A'' = None
   \<and> parse_weight_table
     \<lparr>course_rows = [], assignment_rows = [],
      tr_cells = (\<lambda>c. if c = ''#ffffaa'' then [''Knowledge'', '' 25% '', ''17.5%'', ''90%'']
                       else if c = ''#ffd490'' then [''Application'', ''25%''] else [])\<rparr> ''KU''
     = Some \<lparr>W = Num 25, CW = Num (35 / 2), SA = Num 90\<rparr>"
proof -
  let ?d = "\<lparr>course_rows = [], assignment_rows = [],
      tr_cells = (\<lambda>c. if c = ''#ffffaa'' then [''Knowledge'', '' 25% '', ''17.5%'', ''90%'']
                       else if c = ''#ffd490'' then [''Application'', ''25%''] else [])\<rparr>"
  have a: "(''A'', ''ffd490'') \<in> set weight_colors" by (simp add: weight_colors_def)
  have k: "(''KU'', ''ffffaa'') \<in> set weight_colors" by (simp add: weight_colors_def)
  have l: "length (tr_cells ?d (''#'' @ ''ffd490'')) < 3" by simp
  have w: "weight_entry [trim ''Knowledge'', trim '' 25% '', trim ''17.5%'', trim ''90%''] =
             Inr \<lparr>W = Num 25, CW = Num (35 / 2), SA = Num 90\<rparr>"
    by code_simp
  from short_category_absent[OF a l]
  have n: "parse_weight_table ?d ''A'' = None"
    and o: "\<forall>(k', c') \<in> set weight_colors. k' \<noteq> ''A'' \<longrightarrow>
            parse_weight_table ?d k' =
              (case weight_entry (map trim (tr_cells ?d (''#'' @ c'))) of
                 Inl err \<Rightarrow> None | Inr w \<Rightarrow> Some w)"
    by blast+
  from bspec[OF o k] have "parse_weight_table ?d ''KU'' = Some \<lparr>W = Num 25, CW = Num (35 / 2), SA = Num 90\<rparr>"
    by (simp add: w)
  with n show ?thesis by simp
qed

section \<open>The course list: which rows give a course\<close>

lemma course_row_long:
  "course_row elem = Inr (Some c) \<Longrightarrow> 3 < length (filteredCourse (tr_text elem))"
  by (auto simp: course_row_def Let_def split: option.splits if_splits sum.splits)

lemma course_list_mem:
  "c \<in> set (course_list rows) \<Longrightarrow> \<exists>elem\<in>set rows. course_row elem = Inr (Some c)"
proof (induction rows)
  case Nil
  then show ?case by simp
next
  case (Cons elem rows)
  then show ?case
    by (cases "course_row elem") (auto split: option.splits)
qed

lemma course_list_filter:
  assumes "\<And>elem c. course_row elem = Inr (Some c) \<Longrightarrow> P elem"
  shows "course_list (filter P rows) = course_list rows"
proof (induction rows)
  case Nil
  then show ?case by simp
next
  case (Cons elem rows)
  show ?case
  proof (cases "P elem")
    case True
    then show ?thesis
      using Cons.IH by (cases "course_row elem") (auto split: option.splits)
  next
    case False
    then have "\<And>c. course_row elem \<noteq> Inr (Some c)" using assms by blast
    then show ?thesis
      using False Cons.IH by (cases "course_row elem") (auto split: option.splits)
  qed
qed

text \<open>
  C5. Every course of the list comes from a row whose compacted lines (trimmed, the empty
  ones dropped) number more than three, and the list is the one obtained from those rows
  alone: a row with three compacted lines or fewer gives no course.
\<close>

theorem short_rows_excluded:
  "(\<forall>c\<in>set (course_list rows). \<exists>elem\<in>set rows.
       course_row elem = Inr (Some c) \<and> 3 < length (filteredCourse (tr_text elem)))
   \<and> course_list rows =
       course_list (filter (\<lambda>elem. 3 < length (filteredCourse (tr_text elem))) rows)"
proof
  show "\<forall>c\<in>set (course_list rows). \<exists>elem\<in>set rows.
       course_row elem = Inr (Some c) \<and> 3 < length (filteredCourse (tr_text elem))"
    using course_list_mem course_row_long by blast
  show "course_list rows =
       course_list (filter (\<lambda>elem. 3 < length (filteredCourse (tr_text elem))) rows)"
    by (rule course_list_filter[symmetric]) (rule course_row_long)
qed

text \<open>A row of five lines with a current mark of zero and no anchor, evaluated.\<close>

lemma nth_opt_Cons_numeral:
  "nth_opt (x # xs) (numeral k) = nth_opt xs (pred_numeral k)"
  by (simp add: numeral_eq_Suc)

lemma example_row:
  "course_row \<lparr>tr_text = ''\<newline>  ICS4U1-01 : Computer Science \<newline> Block: P1 - rm. 204 \<newline>2025-09-02 ~ \<newline>2026-01-30\<newline> current mark = 0% \<newline>'',
               tr_href = None\<rparr> =
     Inr (Some \<lparr>code = ''ICS4U1-01'', name = ''Computer Science'', block = ''1'', room = ''204'',
                start_time = ''2025-09-02'', end_time = ''2026-01-30'', dropped_time = '''',
                overall_mark = NA, isFinal = False, isMidterm = False, link = None,
                assignments = [], weight_table = Map.empty\<rparr>)"
proof -
  let ?t = "''\<newline>  ICS4U1-01 : Computer Science \<newline> Block: P1 - rm. 204 \<newline>2025-09-02 ~ \<newline>2026-01-30\<newline> current mark = 0% \<newline>''"
  have l1: "nth_opt (split_js ?t ''\<newline>'') 1 = Some ''  ICS4U1-01 : Computer Science ''"
    by code_simp
  have cn: "\<not> includes_js ''  ICS4U1-01 : Computer Science '' ''Course Name''" by code_simp
  have fc: "filteredCourse ?t =
    [''ICS4U1-01 : Computer Science'', ''Block: P1 - rm. 204'', ''2025-09-02 ~'', ''2026-01-30'',
     ''current mark = 0%'']" by code_simp
  have ov: "parseOverallMark ''current mark = 0%'' =
     Inr \<lparr>mark = Number (Num 0), overall.isFinal = False, overall.isMidterm = False\<rparr>"
    by code_simp
  have ed: "end_and_dropped ''2026-01-30'' = Inr (''2026-01-30'', '''')" by code_simp
  have a: "or_default (nth_opt (split_js ''ICS4U1-01 : Computer Science'' '' : '') 0) ''Unknown Code''
             = ''ICS4U1-01''" by code_simp
  have b: "or_default (nth_opt (split_js ''ICS4U1-01 : Computer Science'' '' : '') (Suc 0)) ''Unknown Course''
             = ''Computer Science''" by code_simp
  have c: "or_default (nth_opt (split_js (replace_js ''Block: P1 - rm. 204'' ''Block: P'' '''') '' '') 0)
             ''N/A'' = ''1''" by code_simp
  have d: "or_default (nth_opt (split_js ''Block: P1 - rm. 204'' ''rm. '') (Suc 0)) ''Unknown Room'' = ''204''"
    by code_simp
  have e: "or_default (nth_opt (split_js ''2025-09-02 ~'' '' '') 0) '''' = ''2025-09-02''"
    by code_simp
  have f: "or_default (Some ''current mark = 0%'') '''' = ''current mark = 0%''" by code_simp
  show ?thesis
    using l1 cn
    by (simp add: course_row_def Let_def fc ov ed a b c d e f mark_or_NA_def nth_opt_Cons_numeral)
qed

text \<open>
  C10. When a row gives a course and the overall mark parsed from its fifth compacted line
  (the empty string when there is none) is the number 0, the \<open>overall_mark\<close> of the course
  is \<open>"N/A"\<close>, not 0: \<open>overall.mark || "N/A"\<close> takes 0 for absent. The number 0 is what
  \<open>parseFloat\<close> returns, so a decimal too small for a double is included.
\<close>

theorem zero_mark_becomes_NA:
  assumes "course_row elem = Inr (Some c)"
    and "parseOverallMark (or_default (nth_opt (filteredCourse (tr_text elem)) 4) '''') = Inr ov"
    and "mark ov = Number (Num 0)"
  shows "overall_mark c = NA"
  using assms
  by (auto simp: course_row_def Let_def mark_or_NA_def split: option.splits if_splits sum.splits)

theorem short_rows_excluded_witness:
  "map code (course_list
     [\<lparr>tr_text = ''\<newline>MHF4U1-02 : Advanced Functions\<newline> Block: P2 - rm. 118 \<newline>'',
       tr_href = Some ''viewReport.php?subject_id=1''\<rparr>,
      \<lparr>tr_text = ''\<newline>  ICS4U1-01 : Computer Science \<newline> Block: P1 - rm. 204 \<newline>2025-09-02 ~ \<newline>2026-01-30\<newline> current mark = 0% \<newline>'',
       tr_href = None\<rparr>]) = [''ICS4U1-01'']"
proof -
  let ?short = "\<lparr>tr_text = ''\<newline>MHF4U1-02 : Advanced Functions\<newline> Block: P2 - rm. 118 \<newline>'',
       tr_href = Some ''viewReport.php?subject_id=1''\<rparr>"
  let ?long = "\<lparr>tr_text = ''\<newline>  ICS4U1-01 : Computer Science \<newline> Block: P1 - rm. 204 \<newline>2025-09-02 ~ \<newline>2026-01-30\<newline> current mark = 0% \<newline>'',
       tr_href = None\<rparr>"
  have s: "length (filteredCourse (tr_text ?short)) = 2" by code_simp
  have l: "length (filteredCourse (tr_text ?long)) = 5" by code_simp
  from short_rows_excluded[of "[?short, ?long]"]
  have "course_list [?short, ?long] =
          course_list (filter (\<lambda>elem. 3 < length (filteredCourse (tr_text elem))) [?short, ?long])"
    by blast
  also have "\<dots> = course_list [?long]"
    using s l by simp
  finally show ?thesis
    by (simp add: example_row)
qed

text \<open>
  A mark too small for a double is parsed as 0: the row with \<open>current mark = 1e-400%\<close>.
\<close>

lemma underflow_mark:
  "parseOverallMark ''current mark = 1e-400%'' =
     Inr \<lparr>mark = Number (Num 0), overall.isFinal = False, overall.isMidterm = False\<rparr>"
proof -
  have m: "replaceAll ''current mark = 1e-400%'' '' '' '''' = ''currentmark=1e-400%''"
    by code_simp
  have i: "\<not> includes_js ''currentmark=1e-400%'' ''FINAL''"
    "includes_js ''currentmark=1e-400%'' ''currentmark''" by code_simp+
  have "number_after ([] @ ''currentmark='' @ ''1e-400'' @ CHR ''%'' # []) ''currentmark='' =
          Inr (parseFloat ''1e-400'')"
  proof (rule number_after_decomp)
    show "CHR ''%'' \<notin> set ''currentmark=''" by simp
    show "\<not> includes_js ([] @ butlast ''currentmark='') ''currentmark=''" by code_simp
    show "\<not> includes_js ''1e-400'' ''currentmark=''" by code_simp
    show "CHR ''%'' \<notin> set ''1e-400''" by simp
  qed
  then have "number_after ''currentmark=1e-400%'' ''currentmark='' = Inr (Num 0)"
    by (simp add: parseFloat_underflow_example)
  then show ?thesis
    using i by (simp add: parseOverallMark_def Let_def m)
qed

lemma underflow_row:
  "course_row \<lparr>tr_text = ''\<newline>  ICS4U1-01 : Computer Science \<newline> Block: P1 - rm. 204 \<newline>2025-09-02 ~ \<newline>2026-01-30\<newline> current mark = 1e-400% \<newline>'',
               tr_href = None\<rparr> =
     Inr (Some \<lparr>code = ''ICS4U1-01'', name = ''Computer Science'', block = ''1'', room = ''204'',
                start_time = ''2025-09-02'', end_time = ''2026-01-30'', dropped_time = '''',
                overall_mark = NA, isFinal = False, isMidterm = False, link = None,
                assignments = [], weight_table = Map.empty\<rparr>)"
proof -
  let ?t = "''\<newline>  ICS4U1-01 : Computer Science \<newline> Block: P1 - rm. 204 \<newline>2025-09-02 ~ \<newline>2026-01-30\<newline> current mark = 1e-400% \<newline>''"
  have l1: "nth_opt (split_js ?t ''\<newline>'') 1 = Some ''  ICS4U1-01 : Computer Science ''"
    by code_simp
  have cn: "\<not> includes_js ''  ICS4U1-01 : Computer Science '' ''Course Name''" by code_simp
  have fc: "filteredCourse ?t =
    [''ICS4U1-01 : Computer Science'', ''Block: P1 - rm. 204'', ''2025-09-02 ~'', ''2026-01-30'',
     ''current mark = 1e-400%'']" by code_simp
  have ed: "end_and_dropped ''2026-01-30'' = Inr (''2026-01-30'', '''')" by code_simp
  have a: "or_default (nth_opt (split_js ''ICS4U1-01 : Computer Science'' '' : '') 0) ''Unknown Code''
             = ''ICS4U1-01''" by code_simp
  have b: "or_default (nth_opt (split_js ''ICS4U1-01 : Computer Science'' '' : '') (Suc 0)) ''Unknown Course''
             = ''Computer Science''" by code_simp
  have c: "or_default (nth_opt (split_js (replace_js ''Block: P1 - rm. 204'' ''Block: P'' '''') '' '') 0)
             ''N/A'' = ''1''" by code_simp
  have d: "or_default (nth_opt (split_js ''Block: P1 - rm. 204'' ''rm. '') (Suc 0)) ''Unknown Room'' = ''204''"
    by code_simp
  have e: "or_default (nth_opt (split_js ''2025-09-02 ~'' '' '') 0) '''' = ''2025-09-02''"
    by code_simp
  have f: "or_default (Some ''current mark = 1e-400%'') '''' = ''current mark = 1e-400%''"
    by code_simp
  show ?thesis
    using l1 cn
    by (simp add: course_row_def Let_def fc underflow_mark ed a b c d e f mark_or_NA_def
        nth_opt_Cons_numeral)
qed

theorem zero_mark_becomes_NA_witness:
  "(\<exists>c. course_row
         \<lparr>tr_text = ''\<newline>  ICS4U1-01 : Computer Science \<newline> Block: P1 - rm. 204 \<newline>2025-09-02 ~ \<newline>2026-01-30\<newline> current mark = 0% \<newline>'',
          tr_href = None\<rparr> = Inr (Some c)
     \<and> parseOverallMark ''current mark = 0%'' =
           Inr \<lparr>mark = Number (Num 0), overall.isFinal = False, overall.isMidterm = False\<rparr>
     \<and> overall_mark c = NA)
   \<and> (\<exists>c. course_row
         \<lparr>tr_text = ''\<newline>  ICS4U1-01 : Computer Science \<newline> Block: P1 - rm. 204 \<newline>2025-09-02 ~ \<newline>2026-01-30\<newline> current mark = 1e-400% \<newline>'',
          tr_href = None\<rparr> = Inr (Some c)
     \<and> parseOverallMark ''current mark = 1e-400%'' =
           Inr \<lparr>mark = Number (Num 0), overall.isFinal = False, overall.isMidterm = False\<rparr>
     \<and> overall_mark c = NA)"
proof -
  let ?elem = "\<lparr>tr_text = ''\<newline>  ICS4U1-01 : Computer Science \<newline> Block: P1 - rm. 204 \<newline>2025-09-02 ~ \<newline>2026-01-30\<newline> current mark = 0% \<newline>'',
          tr_href = None\<rparr>"
  let ?elem2 = "\<lparr>tr_text = ''\<newline>  ICS4U1-01 : Computer Science \<newline> Block: P1 - rm. 204 \<newline>2025-09-02 ~ \<newline>2026-01-30\<newline> current mark = 1e-400% \<newline>'',
          tr_href = None\<rparr>"
  have t: "or_default (nth_opt (filteredCourse (tr_text ?elem)) 4) '''' = ''current mark = 0%''"
    by code_simp
  have p: "parseOverallMark ''current mark = 0%'' =
           Inr \<lparr>mark = Number (Num 0), overall.isFinal = False, overall.isMidterm = False\<rparr>"
    by code_simp
  have p': "parseOverallMark (or_default (nth_opt (filteredCourse (tr_text ?elem)) 4) '''') =
           Inr \<lparr>mark = Number (Num 0), overall.isFinal = False, overall.isMidterm = False\<rparr>"
    using t p by simp
  have t2: "or_default (nth_opt (filteredCourse (tr_text ?elem2)) 4) '''' = ''current mark = 1e-400%''"
    by code_simp
  have q': "parseOverallMark (or_default (nth_opt (filteredCourse (tr_text ?elem2)) 4) '''') =
           Inr \<lparr>mark = Number (Num 0), overall.isFinal = False, overall.isMidterm = False\<rparr>"
    using t2 underflow_mark by simp
  have m: "mark \<lparr>mark = Number (Num 0), overall.isFinal = False, overall.isMidterm = False\<rparr>
             = Number (Num 0)" by simp
  from zero_mark_becomes_NA[OF example_row p' m] example_row p
  have first: "\<exists>c. course_row ?elem = Inr (Some c)
     \<and> parseOverallMark ''current mark = 0%'' =
           Inr \<lparr>mark = Number (Num 0), overall.isFinal = False, overall.isMidterm = False\<rparr>
     \<and> overall_mark c = NA" by blast
  from zero_mark_becomes_NA[OF underflow_row q' m] underflow_row underflow_mark
  have second: "\<exists>c. course_row ?elem2 = Inr (Some c)
     \<and> parseOverallMark ''current mark = 1e-400%'' =
           Inr \<lparr>mark = Number (Num 0), overall.isFinal = False, overall.isMidterm = False\<rparr>
     \<and> overall_mark c = NA" by blast
  from first second show ?thesis by (rule conjI)
qed

section \<open>The handler: the login page and the detail requests\<close>

text \<open>
  C3. With a user name and a password given, the method POST and the login request
  answered by \<open>textData\<close>: a text with \<open>"Invalid Login"\<close> is answered 401 \<open>Invalid Login\<close>
  whatever else it holds; otherwise one with \<open>"Access Denied"\<close> is answered 403
  \<open>Access Denied\<close>; otherwise one with \<open>"Session Expired"\<close> is answered 401
  \<open>Session Expired\<close>; and a text with none of the three is loaded as the course-list page:
  the answer is 200 with the courses of its rows after the detail loop, or 500 when the
  loop is left by an error. In the three failures nothing is requested after the login.
\<close>

theorem login_markers_in_order:
  assumes "u = or_default (username req) ''''" and "u \<noteq> []"
    and "p = or_default (password req) ''''" and "p \<noteq> []"
    and "req_method req = ''POST''"
    and "cookieFetch e [] (login_url u p) = Inr textData"
  shows "(includes_js textData ''Invalid Login'' \<longrightarrow>
            handler e req = (Some \<lparr>status = 401, json = ErrorMsg ''Invalid Login''\<rparr>, [login_url u p]))
       \<and> (\<not> includes_js textData ''Invalid Login'' \<and> includes_js textData ''Access Denied'' \<longrightarrow>
            handler e req = (Some \<lparr>status = 403, json = ErrorMsg ''Access Denied''\<rparr>, [login_url u p]))
       \<and> (\<not> includes_js textData ''Invalid Login'' \<and> \<not> includes_js textData ''Access Denied''
            \<and> includes_js textData ''Session Expired'' \<longrightarrow>
            handler e req = (Some \<lparr>status = 401, json = ErrorMsg ''Session Expired''\<rparr>, [login_url u p]))
       \<and> (\<not> includes_js textData ''Invalid Login'' \<and> \<not> includes_js textData ''Access Denied''
            \<and> \<not> includes_js textData ''Session Expired'' \<longrightarrow>
            handler e req =
              (case detail_loop e [login_url u p] (course_list (course_rows (load e textData))) of
                 (requested, Inl err) \<Rightarrow> (Some \<lparr>status = 500, json = ErrorOf err\<rparr>, requested)
               | (requested, Inr cs) \<Rightarrow> (Some \<lparr>status = 200, json = Courses cs\<rparr>, requested)))"
  using assms by (simp add: handler_def Let_def courses_response_def)

theorem login_markers_in_order_witness:
  "handler \<lparr>cookieFetch = (\<lambda>requested url. Inr ''<p>Access Denied</p><p>Invalid Login</p>''),
            load = (\<lambda>t. \<lparr>course_rows = [], assignment_rows = [], tr_cells = (\<lambda>c. [])\<rparr>)\<rparr>
           \<lparr>req_method = ''POST'', username = Some ''u'', password = Some ''p''\<rparr>
     = (Some \<lparr>status = 401, json = ErrorMsg ''Invalid Login''\<rparr>, [login_url ''u'' ''p''])
   \<and> handler \<lparr>cookieFetch = (\<lambda>requested url. Inr ''<p>No courses</p>''),
            load = (\<lambda>t. \<lparr>course_rows = [], assignment_rows = [], tr_cells = (\<lambda>c. [])\<rparr>)\<rparr>
           \<lparr>req_method = ''POST'', username = Some ''u'', password = Some ''p''\<rparr>
     = (Some \<lparr>status = 200, json = Courses []\<rparr>, [login_url ''u'' ''p''])"
proof -
  let ?e1 = "\<lparr>cookieFetch = (\<lambda>requested url. Inr ''<p>Access Denied</p><p>Invalid Login</p>''),
            load = (\<lambda>t. \<lparr>course_rows = [], assignment_rows = [], tr_cells = (\<lambda>c. [])\<rparr>)\<rparr>"
  let ?e2 = "\<lparr>cookieFetch = (\<lambda>requested url. Inr ''<p>No courses</p>''),
            load = (\<lambda>t. \<lparr>course_rows = [], assignment_rows = [], tr_cells = (\<lambda>c. [])\<rparr>)\<rparr>"
  let ?req = "\<lparr>req_method = ''POST'', username = Some ''u'', password = Some ''p''\<rparr>"
  have u: "''u'' = or_default (username ?req) ''''" and p: "''p'' = or_default (password ?req) ''''"
    by (simp_all add: or_default_def)
  have une: "''u'' \<noteq> []" and pne: "''p'' \<noteq> []" by simp_all
  have m: "req_method ?req = ''POST''" by simp
  have f1: "cookieFetch ?e1 [] (login_url ''u'' ''p'') = Inr ''<p>Access Denied</p><p>Invalid Login</p>''"
    by simp
  have f2: "cookieFetch ?e2 [] (login_url ''u'' ''p'') = Inr ''<p>No courses</p>''"
    by simp
  have i1: "includes_js ''<p>Access Denied</p><p>Invalid Login</p>'' ''Invalid Login''" by code_simp
  have i2: "\<not> includes_js ''<p>No courses</p>'' ''Invalid Login''"
    "\<not> includes_js ''<p>No courses</p>'' ''Access Denied''"
    "\<not> includes_js ''<p>No courses</p>'' ''Session Expired''" by code_simp+
  from login_markers_in_order[OF u une p pne m f1] i1
  have a: "handler ?e1 ?req =
             (Some \<lparr>status = 401, json = ErrorMsg ''Invalid Login''\<rparr>, [login_url ''u'' ''p''])"
    by blast
  from login_markers_in_order[OF u une p pne m f2] i2
  have "handler ?e2 ?req =
          (case detail_loop ?e2 [login_url ''u'' ''p''] (course_list (course_rows (load ?e2 ''<p>No courses</p>''))) of
                 (requested, Inl err) \<Rightarrow> (Some \<lparr>status = 500, json = ErrorOf err\<rparr>, requested)
               | (requested, Inr cs) \<Rightarrow> (Some \<lparr>status = 200, json = Courses cs\<rparr>, requested))"
    by blast
  then have b: "handler ?e2 ?req = (Some \<lparr>status = 200, json = Courses []\<rparr>, [login_url ''u'' ''p''])"
    by simp
  from a b show ?thesis by blast
qed

text \<open>The loop requests the URL of the course at its head, whatever the link is.\<close>

lemma detail_loop_extends:
  "\<exists>more. fst (detail_loop e requested cs) = requested @ more"
proof (induction cs arbitrary: requested)
  case Nil
  then show ?case by simp
next
  case (Cons c cs)
  obtain more where "fst (detail_loop e (requested @ [course_url c]) cs) =
      (requested @ [course_url c]) @ more"
    using Cons.IH by blast
  then show ?case
    by (auto simp: Let_def split: sum.splits prod.splits)
qed

lemma detail_loop_requests_first:
  "course_url c \<in> set (fst (detail_loop e requested (c # cs)))"
proof -
  obtain more where "fst (detail_loop e (requested @ [course_url c]) cs) =
      (requested @ [course_url c]) @ more"
    using detail_loop_extends by blast
  then show ?thesis
    by (auto simp: Let_def split: sum.splits prod.splits)
qed

text \<open>
  The loop keeps the courses and their order; it changes \<open>assignments\<close> and
  \<open>weight_table\<close> only. So what is said of the course list holds of the courses returned.
\<close>

lemma detail_loop_courses:
  "detail_loop e requested cs = (requested', Inr cs') \<Longrightarrow>
   list_all2 (\<lambda>c c'. \<exists>as wt. c' = c\<lparr>assignments := as, weight_table := wt\<rparr>) cs cs'"
proof (induction cs arbitrary: requested requested' cs')
  case Nil
  then show ?case by simp
next
  case (Cons c cs)
  from Cons.prems obtain courseText as r cs0 where
    f: "cookieFetch e requested (course_url c) = Inr courseText"
    and a: "parse_assignments (assignment_rows (load e courseText)) = Inr as"
    and rest: "detail_loop e (requested @ [course_url c]) cs = (r, Inr cs0)"
    and cs': "cs' = c\<lparr>assignments := as, weight_table := parse_weight_table (load e courseText)\<rparr> # cs0"
    by (auto simp: Let_def split: sum.splits prod.splits)
  from Cons.IH[OF rest] show ?case
    unfolding cs' by auto
qed

text \<open>
  The guarded loop of the second copy requests nothing for courses without a link and
  leaves them as they are.
\<close>

lemma guarded_loop_skips_linkless:
  "\<forall>c\<in>set cs. link c = None \<Longrightarrow> detail_loop_guarded parse e requested cs = (requested, Inr cs)"
  by (induction cs) (simp_all add: or_default_def)

text \<open>
  C4 at a course list of one row without an anchor. The portal answers the login with the
  list and any later request with a detail page of one assignment. The handler requests
  \<open>.../students/undefined\<close> for the course, whose link is absent, and the course is
  returned with the assignment of that page.
\<close>

theorem linkless_course_is_requested:
  "\<exists>c. handler
         \<lparr>cookieFetch = (\<lambda>requested url. Inr (if requested = [] then ''list'' else ''detail'')),
          load = (\<lambda>t. if t = ''list''
                 then \<lparr>course_rows =
                         [\<lparr>tr_text = ''\<newline>  ICS4U1-01 : Computer Science \<newline> Block: P1 - rm. 204 \<newline>2025-09-02 ~ \<newline>2026-01-30\<newline> current mark = 0% \<newline>'',
                           tr_href = None\<rparr>],
                       assignment_rows = [], tr_cells = (\<lambda>c. [])\<rparr>
                 else \<lparr>course_rows = [],
                       assignment_rows =
                         [\<lparr>row_text = ''Assignment'', td_rowspan2 = '''', td_bgcolor = (\<lambda>c. '''')\<rparr>,
                          \<lparr>row_text = ''Quiz 1'', td_rowspan2 = ''Quiz 1'', td_bgcolor = (\<lambda>c. '''')\<rparr>],
                       tr_cells = (\<lambda>c. [])\<rparr>)\<rparr>
         \<lparr>req_method = ''POST'', username = Some ''u'', password = Some ''p''\<rparr>
       = (Some \<lparr>status = 200, json = Courses [c]\<rparr>,
          [''https://ta.yrdsb.ca/live/index.php?username=u&password=p&submit=Login&subject_id=0'',
           ''https://ta.yrdsb.ca/live/students/undefined''])
     \<and> link c = None \<and> map Assignment.name (assignments c) = [''Quiz 1'']"
proof -
  let ?h = "\<lparr>row_text = ''Assignment'', td_rowspan2 = '''', td_bgcolor = (\<lambda>c. '''')\<rparr>"
  let ?q = "\<lparr>row_text = ''Quiz 1'', td_rowspan2 = ''Quiz 1'', td_bgcolor = (\<lambda>c. '''')\<rparr>"
  have i: "\<not> includes_js ''list'' ''Invalid Login''" "\<not> includes_js ''list'' ''Access Denied''"
    "\<not> includes_js ''list'' ''Session Expired''" by code_simp+
  have r: "replaceAll ''Quiz 1'' [CHR 0x09] '''' = ''Quiz 1''" by code_simp
  from parse_assignments_rows[of "[?h, ?q]"]
  obtain as where as: "parse_assignments [?h, ?q] = Inr as" "length as = 1"
    "as ! 0 = (assignment_row ?q)\<lparr>feedback := None\<rparr>"
    by auto
  then obtain a where a: "as = [a]" by (cases as) auto
  with as(3) have n: "Assignment.name a = ''Quiz 1''"
    by (simp add: assignment_row_name r)
  show ?thesis
    using i as(1) a n
    by (simp add: handler_def Let_def or_default_def login_url_def courses_response_def
        example_row course_url_def link_string_def)
qed

end
